theory Spec2Isabelle
  imports Main "HOL-Library.Sublist" "HOL-Library.AList" "HOL-Library.Multiset"
begin

section \<open>Data model (types.py)\<close>

text \<open>
  Paths and folder names are Python \<open>str\<close> values, modelled as \<open>string\<close>. Characters are
  taken to be ASCII, so that \<open>str.lower\<close> works character by character and keeps the length.
\<close>

type_synonym path = string

datatype MoveStatus =
    SUCCESS | SUCCESS_RENAMED
  | SKIPPED_MISSING | SKIPPED_EXISTS | SKIPPED_EXCLUDED | SKIPPED_RESUME | SKIPPED_DUPLICATE
  | ERROR
  | DRY_RUN | DRY_RUN_RENAMED
  | QUARANTINED | QUARANTINED_RENAMED
  | DRY_RUN_QUARANTINE | DRY_RUN_QUARANTINE_RENAMED

text \<open>\<open>FolderEntry\<close>: a scanned folder, its basename and its full path.\<close>

record FolderEntry =
  name :: string
  path :: path

text \<open>\<open>FolderMatch\<close>: a folder that matched a CaseID.\<close>

record FolderMatch =
  case_id :: string
  source_path :: path
  folder_name :: string

text \<open>
  \<open>MoveResult\<close>. Its fields \<open>case_id\<close> and \<open>source_path\<close> carry the prefix \<open>result_\<close>
  here, since two records of one theory cannot share a field name.
\<close>

record MoveResult =
  result_case_id :: string
  result_source_path :: path
  dest_path :: "path option"
  status :: MoveStatus
  message :: string

datatype ReportStatus =
    MOVED | MOVED_RENAMED | FOUND_DRYRUN | FOUND_DRYRUN_RENAMED
  | NOT_FOUND | MULTIPLE_MATCHES
  | R_SKIPPED_MISSING | R_SKIPPED_EXISTS | R_SKIPPED_EXCLUDED | R_SKIPPED_RESUME
  | R_SKIPPED_DUPLICATE | R_ERROR
  | R_QUARANTINED | R_QUARANTINED_RENAMED
  | FOUND_DRYRUN_QUARANTINE | FOUND_DRYRUN_QUARANTINE_RENAMED

text \<open>
  The members of \<open>ReportStatus\<close> that share their name with a member of \<open>MoveStatus\<close> carry
  the prefix \<open>R_\<close>. \<open>report_value\<close> is the enum's \<open>.value\<close>, the label written to the CSV.
\<close>

fun report_value :: "ReportStatus \<Rightarrow> string" where
  "report_value MOVED = ''MOVED''"
| "report_value MOVED_RENAMED = ''MOVED_RENAMED''"
| "report_value FOUND_DRYRUN = ''FOUND_DRYRUN''"
| "report_value FOUND_DRYRUN_RENAMED = ''FOUND_DRYRUN_RENAMED''"
| "report_value NOT_FOUND = ''NOT_FOUND''"
| "report_value MULTIPLE_MATCHES = ''MULTIPLE_MATCHES''"
| "report_value R_SKIPPED_MISSING = ''SKIPPED_MISSING''"
| "report_value R_SKIPPED_EXISTS = ''SKIPPED_EXISTS''"
| "report_value R_SKIPPED_EXCLUDED = ''SKIPPED_EXCLUDED''"
| "report_value R_SKIPPED_RESUME = ''SKIPPED_RESUME''"
| "report_value R_SKIPPED_DUPLICATE = ''SKIPPED_DUPLICATE''"
| "report_value R_ERROR = ''ERROR''"
| "report_value R_QUARANTINED = ''QUARANTINED''"
| "report_value R_QUARANTINED_RENAMED = ''QUARANTINED_RENAMED''"
| "report_value FOUND_DRYRUN_QUARANTINE = ''FOUND_DRYRUN_QUARANTINE''"
| "report_value FOUND_DRYRUN_QUARANTINE_RENAMED = ''FOUND_DRYRUN_QUARANTINE_RENAMED''"

text \<open>
  \<open>ReportStatus.from_move_status\<close>: with \<open>is_multiple\<close> set, the four plain move statuses
  become \<open>MULTIPLE_MATCHES\<close>; every other status goes through the table.
\<close>

fun from_move_status :: "MoveStatus \<Rightarrow> bool \<Rightarrow> ReportStatus" where
  "from_move_status s is_multiple =
     (if is_multiple \<and> s \<in> {SUCCESS, SUCCESS_RENAMED, DRY_RUN, DRY_RUN_RENAMED}
      then MULTIPLE_MATCHES
      else (case s of
              SUCCESS \<Rightarrow> MOVED
            | SUCCESS_RENAMED \<Rightarrow> MOVED_RENAMED
            | SKIPPED_MISSING \<Rightarrow> R_SKIPPED_MISSING
            | SKIPPED_EXISTS \<Rightarrow> R_SKIPPED_EXISTS
            | SKIPPED_EXCLUDED \<Rightarrow> R_SKIPPED_EXCLUDED
            | SKIPPED_RESUME \<Rightarrow> R_SKIPPED_RESUME
            | SKIPPED_DUPLICATE \<Rightarrow> R_SKIPPED_DUPLICATE
            | ERROR \<Rightarrow> R_ERROR
            | DRY_RUN \<Rightarrow> FOUND_DRYRUN
            | DRY_RUN_RENAMED \<Rightarrow> FOUND_DRYRUN_RENAMED
            | QUARANTINED \<Rightarrow> R_QUARANTINED
            | QUARANTINED_RENAMED \<Rightarrow> R_QUARANTINED_RENAMED
            | DRY_RUN_QUARANTINE \<Rightarrow> FOUND_DRYRUN_QUARANTINE
            | DRY_RUN_QUARANTINE_RENAMED \<Rightarrow> FOUND_DRYRUN_QUARANTINE_RENAMED))"

record ReportEntry =
  entry_timestamp :: string
  entry_case_id :: string
  entry_status :: string
  entry_source_path :: string
  entry_dest_path :: string
  entry_message :: string

section \<open>Strings and paths\<close>

text \<open>\<open>str.lower\<close> on ASCII text.\<close>

definition lower_char :: "char \<Rightarrow> char" where
  "lower_char c =
     (case map_of (zip ''ABCDEFGHIJKLMNOPQRSTUVWXYZ'' ''abcdefghijklmnopqrstuvwxyz'') c of
        Some l \<Rightarrow> l
      | None \<Rightarrow> c)"

definition lower :: "string \<Rightarrow> string" where
  "lower s = map lower_char s"

text \<open>\<open>str(counter)\<close> for a non-negative counter: its decimal digits.\<close>

function str_nat :: "nat \<Rightarrow> string" where
  "str_nat n =
     (if n < 10 then [''0123456789'' ! n]
      else str_nat (n div 10) @ [''0123456789'' ! (n mod 10)])"
  by pat_completeness auto
termination
  by (relation "measure id") auto

declare str_nat.simps [simp del]

text \<open>
  \<open>pathlib\<close> on POSIX. A path string is read as an anchor (\<open>/\<close>, \<open>//\<close> or none) and its
  parts: the pieces between separators, without the empty ones and without \<open>.\<close>. \<open>str\<close>
  writes the anchor and the parts back, and \<open>.\<close> for the empty path. Then
  \<open>path_join root nm\<close> is \<open>str(Path(root) / nm)\<close>, where an absolute \<open>nm\<close> replaces the
  root, \<open>path_name p\<close> is \<open>Path(p).name\<close> and \<open>path_parent p\<close> is \<open>str(Path(p).parent)\<close>.
\<close>

fun split_sep :: "string \<Rightarrow> string list" where
  "split_sep [] = [[]]"
| "split_sep (c # cs) =
     (if c = CHR ''/'' then [] # split_sep cs
      else (case split_sep cs of [] \<Rightarrow> [[c]] | w # ws \<Rightarrow> (c # w) # ws))"

definition path_parts :: "string \<Rightarrow> string list" where
  "path_parts p = filter (\<lambda>part. part \<noteq> [] \<and> part \<noteq> ''.'') (split_sep p)"

definition path_anchor :: "string \<Rightarrow> string" where
  "path_anchor p =
     (if take 2 p = ''//'' \<and> take 3 p \<noteq> ''///'' then ''//''
      else if take 1 p = ''/'' then ''/''
      else [])"

fun join_sep :: "string list \<Rightarrow> string" where
  "join_sep [] = []"
| "join_sep [part] = part"
| "join_sep (part # parts) = part @ ''/'' @ join_sep parts"

definition path_str :: "string \<Rightarrow> string list \<Rightarrow> path" where
  "path_str anchor parts = (if anchor = [] \<and> parts = [] then ''.'' else anchor @ join_sep parts)"

definition path_join :: "path \<Rightarrow> string \<Rightarrow> path" where
  "path_join root nm =
     (if take 1 nm = ''/'' then path_str (path_anchor nm) (path_parts nm)
      else path_str (path_anchor root) (path_parts root @ path_parts nm))"

definition path_name :: "path \<Rightarrow> string" where
  "path_name p = (if path_parts p = [] then [] else last (path_parts p))"

definition path_parent :: "path \<Rightarrow> path" where
  "path_parent p = path_str (path_anchor p) (butlast (path_parts p))"

text \<open>
  A plain folder name: one path component, as a scan yields it. It is not empty, it is not
  \<open>.\<close>, and it holds no separator.
\<close>

definition plain_name :: "string \<Rightarrow> bool" where
  "plain_name nm \<longleftrightarrow> nm \<noteq> [] \<and> nm \<noteq> ''.'' \<and> CHR ''/'' \<notin> set nm"

section \<open>The operating system\<close>

text \<open>
  What the engine asks of its environment, over a filesystem state of any type \<open>'fs\<close>:
  \<^item> \<open>path_exists\<close>, \<open>path_isdir\<close>: \<open>os.path.exists\<close> and \<open>os.path.isdir\<close>;
  \<^item> \<open>makedirs\<close>: \<open>os.makedirs(p, exist_ok=True)\<close>, giving the text of the \<open>OSError\<close> when it
    fails, and the filesystem it leaves;
  \<^item> \<open>safe_move\<close>: the helper of \<open>utils.py\<close>, giving its pair \<open>(success, message)\<close> and the
    filesystem it leaves;
  \<^item> \<open>fnmatch\<close>: \<open>fnmatch.fnmatch(name, pattern)\<close> of the standard library.

  \<open>utils.py\<close> is not part of the sources at hand, so \<open>safe_move\<close> is a parameter. Its
  \<open>normalize_path\<close> and \<open>to_extended_length_path\<close> only change how a path is spelled, never the
  object it names: paths are taken to be normalised already, and both are the identity.
\<close>

record 'fs os_api =
  path_exists :: "'fs \<Rightarrow> path \<Rightarrow> bool"
  path_isdir :: "'fs \<Rightarrow> path \<Rightarrow> bool"
  makedirs :: "'fs \<Rightarrow> path \<Rightarrow> string option \<times> 'fs"
  safe_move :: "'fs \<Rightarrow> path \<Rightarrow> path \<Rightarrow> (bool \<times> string) \<times> 'fs"
  fnmatch :: "string \<Rightarrow> string \<Rightarrow> bool"

text \<open>The exceptions that leave the modelled functions.\<close>

datatype exn = RuntimeError string | AttributeError string

fun exn_class :: "exn \<Rightarrow> string" where
  "exn_class (RuntimeError _) = ''RuntimeError''"
| "exn_class (AttributeError _) = ''AttributeError''"

section \<open>Exclusion patterns and destination names (mover.py)\<close>

text \<open>
  \<open>matches_exclusion_pattern\<close>: the first pattern that matches the lower-cased folder name,
  as a glob or as a substring; \<open>None\<close> when there is none.
\<close>

fun matches_exclusion_pattern ::
  "(string \<Rightarrow> string \<Rightarrow> bool) \<Rightarrow> string \<Rightarrow> string list \<Rightarrow> string option" where
  "matches_exclusion_pattern fnm fname [] = None"
| "matches_exclusion_pattern fnm fname (pattern # patterns) =
     (if fnm (lower fname) (lower pattern) then Some pattern
      else if sublist (lower pattern) (lower fname) then Some pattern
      else matches_exclusion_pattern fnm fname patterns)"

text \<open>
  \<open>resolve_destination\<close>. The \<open>while True\<close> loop is \<open>resolve_suffix\<close>, entered with
  \<open>counter = 1\<close>; it raises once \<open>counter\<close> has passed 10000. The second component of
  the result is the set object \<open>existing_names\<close> as the call leaves it (\<open>None\<close> and the empty
  set are the same argument, by \<open>existing_names or set()\<close>).
\<close>

definition exhausted_message :: "string \<Rightarrow> string" where
  "exhausted_message fname =
     ''Could not find unique name for '' @ [CHR 0x27] @ fname @ [CHR 0x27]
       @ '' after 10000 attempts''"

function resolve_suffix ::
  "'fs os_api \<Rightarrow> 'fs \<Rightarrow> path \<Rightarrow> string \<Rightarrow> string set \<Rightarrow> nat \<Rightarrow> (exn + path) \<times> string set"
  where
  "resolve_suffix os fs root fname existing_names counter =
     (let suffixed_name = fname @ ''_'' @ str_nat counter;
          candidate = path_join root suffixed_name
      in if \<not> path_exists os fs candidate \<and> suffixed_name \<notin> existing_names
         then (Inr candidate, existing_names)
         else if counter + 1 > 10000
         then (Inl (RuntimeError (exhausted_message fname)), existing_names)
         else resolve_suffix os fs root fname existing_names (counter + 1))"
  by pat_completeness auto
termination
  by (relation "measure (\<lambda>(os, fs, root, fname, existing_names, counter). 10001 - counter)")
     auto

declare resolve_suffix.simps [simp del]

definition resolve_destination ::
  "'fs os_api \<Rightarrow> 'fs \<Rightarrow> path \<Rightarrow> string \<Rightarrow> string set \<Rightarrow> (exn + path) \<times> string set" where
  "resolve_destination os fs root fname existing_names =
     (let candidate = path_join root fname
      in if \<not> path_exists os fs candidate \<and> fname \<notin> existing_names
         then (Inr candidate, existing_names)
         else resolve_suffix os fs root fname existing_names 1)"

text \<open>
  For the statements about the resolver: the \<open>k\<close>-th name tried for a folder name (the name
  itself for \<open>k = 0\<close>, then the suffixes), and whether it is taken, on disk or in the claimed
  set.
\<close>

definition candidate_name :: "string \<Rightarrow> nat \<Rightarrow> string" where
  "candidate_name fname k = (if k = 0 then fname else fname @ ''_'' @ str_nat k)"

definition taken :: "'fs os_api \<Rightarrow> 'fs \<Rightarrow> path \<Rightarrow> string \<Rightarrow> string set \<Rightarrow> nat \<Rightarrow> bool" where
  "taken os fs root fname existing_names k =
     (path_exists os fs (path_join root (candidate_name fname k))
      \<or> candidate_name fname k \<in> existing_names)"

section \<open>Messages (mover.py)\<close>

text \<open>The texts and f-strings that the mover puts into the \<open>message\<close> of a result.\<close>

definition msg_source_missing :: string where
  "msg_source_missing = ''Source folder no longer exists (may have been moved already)''"

definition msg_not_directory :: string where
  "msg_not_directory = ''Source path is not a directory''"

definition msg_dest_exists :: string where
  "msg_dest_exists = ''Destination already exists''"

definition msg_would_move :: "path \<Rightarrow> string" where
  "msg_would_move dest = ''Would move to '' @ dest"

definition msg_cannot_create :: "string \<Rightarrow> string" where
  "msg_cannot_create e = ''Cannot create destination directory: '' @ e"

definition msg_excluded :: "string \<Rightarrow> string" where
  "msg_excluded matched_pattern = ''Excluded by pattern: '' @ matched_pattern"

definition msg_resumed :: string where
  "msg_resumed = ''Already processed in previous run (resumed)''"

definition msg_duplicate_skipped :: string where
  "msg_duplicate_skipped = ''Duplicate CaseID skipped (--duplicates-action=skip)''"

definition msg_dest_exists_skipped :: string where
  "msg_dest_exists_skipped = ''Destination exists (skipped due to --on-dest-exists=skip)''"

definition msg_moved_renamed :: "string \<Rightarrow> string \<Rightarrow> string" where
  "msg_moved_renamed fname dest_name =
     ''Moved successfully (renamed from '' @ fname @ '' to '' @ dest_name @ '')''"

definition msg_would_move_renamed :: "path \<Rightarrow> string \<Rightarrow> string \<Rightarrow> string" where
  "msg_would_move_renamed dest fname dest_name =
     ''Would move to '' @ dest @ '' (renamed from '' @ fname @ '' to '' @ dest_name @ '')''"

definition msg_quarantined_renamed :: "string \<Rightarrow> string \<Rightarrow> string" where
  "msg_quarantined_renamed fname dest_name =
     ''Quarantined duplicate (renamed from '' @ fname @ '' to '' @ dest_name @ '')''"

definition msg_quarantined :: "path \<Rightarrow> string" where
  "msg_quarantined dest = ''Quarantined duplicate to '' @ dest"

definition msg_would_quarantine_renamed :: "path \<Rightarrow> string \<Rightarrow> string \<Rightarrow> string" where
  "msg_would_quarantine_renamed dest fname dest_name =
     ''Would quarantine to '' @ dest @ '' (renamed from '' @ fname @ '' to '' @ dest_name
       @ '')''"

definition msg_would_quarantine :: "path \<Rightarrow> string" where
  "msg_would_quarantine dest = ''Would quarantine duplicate to '' @ dest"

section \<open>The move primitive (mover.py, \<open>move_folder\<close>)\<close>

text \<open>
  The module-level \<open>move_folder\<close>; its \<open>action\<close> argument only words the log line. It
  leaves \<open>case_id\<close> empty for the caller to fill in.
\<close>

definition move_folder ::
  "'fs os_api \<Rightarrow> 'fs \<Rightarrow> path \<Rightarrow> path \<Rightarrow> bool \<Rightarrow> MoveResult \<times> 'fs" where
  "move_folder os fs src dest dry =
     (if \<not> path_exists os fs src then
        (\<lparr> result_case_id = [], result_source_path = src, dest_path = None,
            status = SKIPPED_MISSING,
            message = msg_source_missing \<rparr>, fs)
      else if \<not> path_isdir os fs src then
        (\<lparr> result_case_id = [], result_source_path = src, dest_path = None,
            status = ERROR, message = msg_not_directory \<rparr>, fs)
      else if path_exists os fs dest then
        (\<lparr> result_case_id = [], result_source_path = src, dest_path = Some dest,
            status = SKIPPED_EXISTS, message = msg_dest_exists \<rparr>, fs)
      else if dry then
        (\<lparr> result_case_id = [], result_source_path = src, dest_path = Some dest,
            status = DRY_RUN, message = msg_would_move dest \<rparr>, fs)
      else
        (case makedirs os fs (path_parent dest) of
           (Some e, fs1) \<Rightarrow>
             (\<lparr> result_case_id = [], result_source_path = src, dest_path = Some dest,
                 status = ERROR,
                 message = msg_cannot_create e \<rparr>, fs1)
         | (None, fs1) \<Rightarrow>
             (case safe_move os fs1 src dest of
                ((True, msg), fs2) \<Rightarrow>
                  (\<lparr> result_case_id = [], result_source_path = src, dest_path = Some dest,
                      status = SUCCESS, message = msg \<rparr>, fs2)
              | ((False, msg), fs2) \<Rightarrow>
                  (\<lparr> result_case_id = [], result_source_path = src, dest_path = Some dest,
                      status = ERROR, message = msg \<rparr>, fs2))))"

section \<open>The move engine (mover.py, class \<open>FolderMover\<close>)\<close>

definition DUPLICATES_FOLDER :: string where
  "DUPLICATES_FOLDER = ''_DUPLICATES''"

text \<open>
  The constructor's arguments. \<open>on_dest_exists\<close> and \<open>duplicates_action\<close> are the strings the
  code compares them with; \<open>max_moves\<close> is an optional Python \<open>int\<close>.
\<close>

record config =
  dest_root :: path
  dry_run :: bool
  max_moves :: "int option"
  exclude_patterns :: "string list"
  on_dest_exists :: string
  already_moved_paths :: "path set"
  duplicates_action :: string
  duplicate_case_ids :: "string set"

text \<open>
  The mutable attributes: \<open>_claimed_names\<close>, \<open>_quarantine_claimed\<close> and \<open>_stats\<close>.
\<close>

record engine =
  claimed_names :: "string set"
  quarantine_claimed :: "string \<rightharpoonup> string set"
  stats :: "MoveStatus \<Rightarrow> nat"

definition new_engine :: engine where
  "new_engine = \<lparr> claimed_names = {}, quarantine_claimed = Map.empty, stats = (\<lambda>_. 0) \<rparr>"

text \<open>The constructor's defaults: \<open>FolderMover(dest_root)\<close>.\<close>

definition default_config :: "path \<Rightarrow> config" where
  "default_config root =
     \<lparr> dest_root = root, dry_run = False, max_moves = None, exclude_patterns = [],
       on_dest_exists = ''rename'', already_moved_paths = {},
       duplicates_action = ''quarantine'', duplicate_case_ids = {} \<rparr>"

text \<open>\<open>self._stats[result.status] += 1\<close>\<close>

definition count_status :: "MoveStatus \<Rightarrow> engine \<Rightarrow> engine" where
  "count_status s st = st\<lparr> stats := (stats st)(s := stats st s + 1) \<rparr>"

text \<open>
  \<open>_resolve_quarantine_destination\<close>: the claimed set of the CaseID is created on first use,
  passed to \<open>resolve_destination\<close>, and the name of the returned path is added to it.
  An exception leaves the method with no result; the engine it leaves behind is not modelled.
\<close>

definition resolve_quarantine_destination ::
  "'fs os_api \<Rightarrow> config \<Rightarrow> 'fs \<Rightarrow> engine \<Rightarrow> string \<Rightarrow> string \<Rightarrow> exn + (path \<times> engine)" where
  "resolve_quarantine_destination os cfg fs st cid fname =
     (let quarantine_root = path_join (path_join (dest_root cfg) DUPLICATES_FOLDER) cid;
          qc = (if cid \<notin> dom (quarantine_claimed st) then (quarantine_claimed st)(cid \<mapsto> {})
                else quarantine_claimed st);
          claimed = the (qc cid)
      in case resolve_destination os fs quarantine_root fname claimed of
           (Inl e, claimed') \<Rightarrow> Inl e
         | (Inr dest, claimed') \<Rightarrow>
             Inr (dest, st\<lparr> quarantine_claimed := qc(cid \<mapsto> insert (path_name dest) claimed') \<rparr>))"

text \<open>\<open>_move_to_quarantine\<close>\<close>

definition move_to_quarantine ::
  "'fs os_api \<Rightarrow> config \<Rightarrow> 'fs \<Rightarrow> engine \<Rightarrow> FolderMatch \<Rightarrow> exn + (MoveResult \<times> 'fs \<times> engine)"
  where
  "move_to_quarantine os cfg fs st m =
     (let fname = folder_name m
      in case resolve_quarantine_destination os cfg fs st (case_id m) fname of
           Inl e \<Rightarrow> Inl e
         | Inr (dest, st1) \<Rightarrow>
             (let dest_name = path_name dest;
                  (result, fs') = move_folder os fs (source_path m) dest (dry_run cfg);
                  was_renamed = (dest_name \<noteq> fname);
                  (st_new, msg) =
                    (if status result = SUCCESS then
                       (if was_renamed then
                          (QUARANTINED_RENAMED, msg_quarantined_renamed fname dest_name)
                        else (QUARANTINED, msg_quarantined dest))
                     else if status result = DRY_RUN then
                       (if was_renamed then
                          (DRY_RUN_QUARANTINE_RENAMED,
                           msg_would_quarantine_renamed dest fname dest_name)
                        else (DRY_RUN_QUARANTINE, msg_would_quarantine dest))
                     else (status result, message result));
                  final_result =
                    \<lparr> result_case_id = case_id m,
                      result_source_path = result_source_path result,
                      dest_path = dest_path result, status = st_new, message = msg \<rparr>
              in Inr (final_result, fs', count_status st_new st1)))"

text \<open>
  \<open>FolderMover.move_folder\<close>. The pattern returned by \<open>matches_exclusion_pattern\<close> is tested
  for truth (\<open>if matched_pattern:\<close>), which an empty pattern fails. With the identity for
  \<open>normalize_path\<close>, the resume test is membership of the source path in the resume set.
\<close>

definition excluded_by :: "'fs os_api \<Rightarrow> config \<Rightarrow> string \<Rightarrow> string option" where
  "excluded_by os cfg fname =
     (if exclude_patterns cfg \<noteq> [] then
        (case matches_exclusion_pattern (fnmatch os) fname (exclude_patterns cfg) of
           Some matched_pattern \<Rightarrow> if matched_pattern \<noteq> [] then Some matched_pattern else None
         | None \<Rightarrow> None)
      else None)"

definition FolderMover_move_folder ::
  "'fs os_api \<Rightarrow> config \<Rightarrow> 'fs \<Rightarrow> engine \<Rightarrow> FolderMatch \<Rightarrow> exn + (MoveResult \<times> 'fs \<times> engine)"
  where
  "FolderMover_move_folder os cfg fs st m =
     (let fname = folder_name m;
          is_duplicate = (case_id m \<in> duplicate_case_ids cfg)
      in case excluded_by os cfg fname of
           Some matched_pattern \<Rightarrow>
             Inr (\<lparr> result_case_id = case_id m, result_source_path = source_path m,
                    dest_path = None, status = SKIPPED_EXCLUDED,
                    message = msg_excluded matched_pattern \<rparr>,
                  fs, count_status SKIPPED_EXCLUDED st)
         | None \<Rightarrow>
            if source_path m \<in> already_moved_paths cfg then
              Inr (\<lparr> result_case_id = case_id m, result_source_path = source_path m,
                     dest_path = None, status = SKIPPED_RESUME,
                     message = msg_resumed \<rparr>,
                   fs, count_status SKIPPED_RESUME st)
            else if \<not> path_exists os fs (source_path m) then
              Inr (\<lparr> result_case_id = case_id m, result_source_path = source_path m,
                     dest_path = None, status = SKIPPED_MISSING,
                     message = msg_source_missing \<rparr>,
                   fs, count_status SKIPPED_MISSING st)
            else if is_duplicate \<and> duplicates_action cfg = ''skip'' then
              Inr (\<lparr> result_case_id = case_id m, result_source_path = source_path m,
                     dest_path = None, status = SKIPPED_DUPLICATE,
                     message = msg_duplicate_skipped \<rparr>,
                   fs, count_status SKIPPED_DUPLICATE st)
            else if is_duplicate \<and> duplicates_action cfg = ''quarantine'' then
              move_to_quarantine os cfg fs st m
            else
              (let original_dest = path_join (dest_root cfg) fname;
                   dest_exists = (path_exists os fs original_dest \<or> fname \<in> claimed_names st)
               in if dest_exists \<and> on_dest_exists cfg = ''skip'' then
                    Inr (\<lparr> result_case_id = case_id m, result_source_path = source_path m,
                           dest_path = Some original_dest, status = SKIPPED_EXISTS,
                           message = msg_dest_exists_skipped \<rparr>,
                         fs, count_status SKIPPED_EXISTS st)
                  else
                    (case resolve_destination os fs (dest_root cfg) fname (claimed_names st) of
                       (Inl e, claimed') \<Rightarrow> Inl e
                     | (Inr dest, claimed') \<Rightarrow>
                         (let dest_name = path_name dest;
                              st1 = st\<lparr> claimed_names := insert dest_name claimed' \<rparr>;
                              (result, fs') =
                                move_folder os fs (source_path m) dest (dry_run cfg);
                              was_renamed = (dest_name \<noteq> fname);
                              (st_new, msg) =
                                (if status result = SUCCESS \<and> was_renamed then
                                   (SUCCESS_RENAMED, msg_moved_renamed fname dest_name)
                                 else if status result = DRY_RUN \<and> was_renamed then
                                   (DRY_RUN_RENAMED, msg_would_move_renamed dest fname dest_name)
                                 else (status result, message result));
                              final_result =
                                \<lparr> result_case_id = case_id m,
                                  result_source_path = result_source_path result,
                                  dest_path = dest_path result, status = st_new,
                                  message = msg \<rparr>
                          in Inr (final_result, fs', count_status st_new st1)))))"

text \<open>
  For the statements about the engine: the status that \<open>FolderMover.move_folder\<close> and
  \<open>_move_to_quarantine\<close> make of the status of the move primitive, and the number of
  operations among a list of results.
\<close>

definition main_status :: "MoveStatus \<Rightarrow> bool \<Rightarrow> MoveStatus" where
  "main_status s was_renamed =
     (if s = SUCCESS \<and> was_renamed then SUCCESS_RENAMED
      else if s = DRY_RUN \<and> was_renamed then DRY_RUN_RENAMED
      else s)"

definition quarantine_status :: "MoveStatus \<Rightarrow> bool \<Rightarrow> MoveStatus" where
  "quarantine_status s was_renamed =
     (if s = SUCCESS then (if was_renamed then QUARANTINED_RENAMED else QUARANTINED)
      else if s = DRY_RUN then
        (if was_renamed then DRY_RUN_QUARANTINE_RENAMED else DRY_RUN_QUARANTINE)
      else s)"

text \<open>
  \<open>FolderMover.move_all\<close> (without a progress callback). The \<open>for\<close> loop is
  \<open>move_all_loop\<close>, with the list \<open>results\<close> and the counter \<open>ops_count\<close> as arguments; an
  exception of \<open>move_folder\<close> is not caught and ends the batch.
\<close>

definition OP_STATUSES :: "MoveStatus set" where
  "OP_STATUSES =
     {SUCCESS, SUCCESS_RENAMED, QUARANTINED, QUARANTINED_RENAMED,
      DRY_RUN, DRY_RUN_RENAMED, DRY_RUN_QUARANTINE, DRY_RUN_QUARANTINE_RENAMED}"

definition limit_reached :: "config \<Rightarrow> nat \<Rightarrow> bool" where
  "limit_reached cfg ops_count =
     (case max_moves cfg of None \<Rightarrow> False | Some k \<Rightarrow> int ops_count \<ge> k)"

text \<open>
  For the statements about the branches of \<open>FolderMover.move_folder\<close>: a match passes the
  checks when it is not excluded, not in the resume set, its source exists and it is not a
  duplicate to be skipped. It then reaches the quarantine branch, or the main branch unless
  its destination exists and is to be skipped. \<open>quarantine_root\<close> is the directory
  \<open>dest_root/_DUPLICATES/<case_id>\<close>, and \<open>quarantine_names\<close> the claimed set of a CaseID, which
  is empty until first used.
\<close>

definition passes_checks :: "'fs os_api \<Rightarrow> config \<Rightarrow> 'fs \<Rightarrow> FolderMatch \<Rightarrow> bool" where
  "passes_checks os cfg fs m \<longleftrightarrow>
     excluded_by os cfg (folder_name m) = None
     \<and> source_path m \<notin> already_moved_paths cfg
     \<and> path_exists os fs (source_path m)
     \<and> \<not> (case_id m \<in> duplicate_case_ids cfg \<and> duplicates_action cfg = ''skip'')"

definition reaches_quarantine :: "'fs os_api \<Rightarrow> config \<Rightarrow> 'fs \<Rightarrow> FolderMatch \<Rightarrow> bool" where
  "reaches_quarantine os cfg fs m \<longleftrightarrow>
     passes_checks os cfg fs m
     \<and> case_id m \<in> duplicate_case_ids cfg \<and> duplicates_action cfg = ''quarantine''"

definition reaches_main :: "'fs os_api \<Rightarrow> config \<Rightarrow> 'fs \<Rightarrow> engine \<Rightarrow> FolderMatch \<Rightarrow> bool" where
  "reaches_main os cfg fs st m \<longleftrightarrow>
     passes_checks os cfg fs m
     \<and> \<not> (case_id m \<in> duplicate_case_ids cfg \<and> duplicates_action cfg = ''quarantine'')
     \<and> \<not> ((path_exists os fs (path_join (dest_root cfg) (folder_name m))
            \<or> folder_name m \<in> claimed_names st)
           \<and> on_dest_exists cfg = ''skip'')"

definition quarantine_root :: "config \<Rightarrow> string \<Rightarrow> path" where
  "quarantine_root cfg cid = path_join (path_join (dest_root cfg) DUPLICATES_FOLDER) cid"

definition quarantine_names :: "engine \<Rightarrow> string \<Rightarrow> string set" where
  "quarantine_names st cid = (case quarantine_claimed st cid of None \<Rightarrow> {} | Some c \<Rightarrow> c)"

definition count_ops :: "MoveResult list \<Rightarrow> nat" where
  "count_ops results = length (filter (\<lambda>r. status r \<in> OP_STATUSES) results)"

fun move_all_loop ::
  "'fs os_api \<Rightarrow> config \<Rightarrow> FolderMatch list \<Rightarrow> MoveResult list \<Rightarrow> nat \<Rightarrow> 'fs \<Rightarrow> engine
     \<Rightarrow> exn + (MoveResult list \<times> 'fs \<times> engine)" where
  "move_all_loop os cfg [] results ops_count fs st = Inr (results, fs, st)"
| "move_all_loop os cfg (m # ms) results ops_count fs st =
     (if limit_reached cfg ops_count then Inr (results, fs, st)
      else (case FolderMover_move_folder os cfg fs st m of
              Inl e \<Rightarrow> Inl e
            | Inr (result, fs', st') \<Rightarrow>
                move_all_loop os cfg ms (results @ [result])
                  (if status result \<in> OP_STATUSES then ops_count + 1 else ops_count) fs' st'))"

definition FolderMover_move_all ::
  "'fs os_api \<Rightarrow> config \<Rightarrow> 'fs \<Rightarrow> engine \<Rightarrow> FolderMatch list
     \<Rightarrow> exn + (MoveResult list \<times> 'fs \<times> engine)" where
  "FolderMover_move_all os cfg fs st matches = move_all_loop os cfg matches [] 0 fs st"

section \<open>The matcher (indexer.py)\<close>

text \<open>
  The result dictionary maps a CaseID to the list of its folders. \<open>results0\<close> is the
  comprehension \<open>{cid: [] for cid in case_ids}\<close>, and \<open>append_result\<close> is
  \<open>results[key].append(folder)\<close>; every key it is called with is a CaseID of the input,
  so the lookup cannot fail.
\<close>

type_synonym results = "string \<rightharpoonup> FolderEntry list"

definition results0 :: "string list \<Rightarrow> results" where
  "results0 case_ids = map_of (map (\<lambda>cid. (cid, [])) case_ids)"

definition append_result :: "FolderEntry \<Rightarrow> string \<Rightarrow> results \<Rightarrow> results" where
  "append_result folder key res =
     (case res key of Some fs \<Rightarrow> res(key \<mapsto> fs @ [folder]) | None \<Rightarrow> res)"

definition normalized :: "bool \<Rightarrow> string \<Rightarrow> string" where
  "normalized case_sensitive s = (if case_sensitive then s else lower s)"

subsection \<open>\<open>_match_with_length_buckets\<close>\<close>

definition prepared_caseids :: "bool \<Rightarrow> string list \<Rightarrow> (string \<times> string) list" where
  "prepared_caseids case_sensitive case_ids =
     map (\<lambda>cid. (cid, normalized case_sensitive cid)) case_ids"

text \<open>\<open>max(len(cid) for cid in case_ids) if case_ids else 0\<close>\<close>

definition max_length :: "string list \<Rightarrow> nat" where
  "max_length case_ids = fold max (map length case_ids) 0"

text \<open>
  \<open>buckets[len(normalized)].append((original, normalized))\<close>, from \<open>max_length + 1\<close> empty
  buckets. On ASCII text \<open>len(normalized)\<close> is the length of the CaseID, an index in range.
\<close>

definition fill_buckets ::
  "(string \<times> string) list \<Rightarrow> (string \<times> string) list list \<Rightarrow> (string \<times> string) list list"
  where
  "fill_buckets prepared buckets =
     fold (\<lambda>(original, norm) bs.
             bs[length norm := bs ! length norm @ [(original, norm)]]) prepared buckets"

text \<open>The cumulative buckets: \<open>running = running + bucket; cumulative.append(running)\<close>.\<close>

fun build_cumulative :: "'a list list \<Rightarrow> 'a list \<Rightarrow> 'a list list" where
  "build_cumulative [] running = []"
| "build_cumulative (bucket # buckets) running =
     (running @ bucket) # build_cumulative buckets (running @ bucket)"

definition cumulative_buckets :: "bool \<Rightarrow> string list \<Rightarrow> (string \<times> string) list list" where
  "cumulative_buckets case_sensitive case_ids =
     build_cumulative
       (fill_buckets (prepared_caseids case_sensitive case_ids)
          (replicate (max_length case_ids + 1) [])) []"

text \<open>The CaseIDs checked against one folder name of length \<open>name_len\<close>.\<close>

definition applicable :: "(string \<times> string) list list \<Rightarrow> nat \<Rightarrow> nat \<Rightarrow> (string \<times> string) list"
  where
  "applicable cumulative max_len name_len =
     (if name_len = 0 then []
      else if name_len > max_len then
        (if max_len < length cumulative then cumulative ! max_len else [])
      else (if name_len < length cumulative then cumulative ! name_len else []))"

definition bucket_folder ::
  "bool \<Rightarrow> (string \<times> string) list list \<Rightarrow> nat \<Rightarrow> FolderEntry \<Rightarrow> results \<Rightarrow> results" where
  "bucket_folder case_sensitive cumulative max_len folder res =
     (let fname = normalized case_sensitive (name folder)
      in fold (\<lambda>(original, norm) r.
                 if sublist norm fname then append_result folder original r else r)
           (applicable cumulative max_len (length fname)) res)"

definition match_with_length_buckets ::
  "string list \<Rightarrow> FolderEntry list \<Rightarrow> bool \<Rightarrow> results" where
  "match_with_length_buckets case_ids folders case_sensitive =
     fold (bucket_folder case_sensitive (cumulative_buckets case_sensitive case_ids)
             (max_length case_ids))
       folders (results0 case_ids)"

subsection \<open>\<open>_match_with_ahocorasick\<close>\<close>

text \<open>
  The automaton of the \<open>pyahocorasick\<close> library, by what it stores and reports, not by how it
  searches. It is a dictionary from keys to values, kept here as an association list.
  \<open>add_word\<close> stores a value under a key and ignores the empty key. \<open>iter(text)\<close> yields
  \<open>(end_index, value)\<close> for every stored key and every place of \<open>text\<close> where an occurrence
  of the key ends; on an automaton without keys it raises \<open>AttributeError\<close>.
\<close>

type_synonym automaton = "(string \<times> string) list"

definition add_word :: "string \<Rightarrow> string \<Rightarrow> automaton \<Rightarrow> automaton" where
  "add_word key val A = (if key = [] then A else AList.update key val A)"

definition automaton_iter :: "automaton \<Rightarrow> string \<Rightarrow> exn + (nat \<times> string) list" where
  "automaton_iter A text =
     (if A = [] then Inl (AttributeError ''Not an Aho-Corasick automaton yet'')
      else Inr (concat (map (\<lambda>i. map (\<lambda>(key, val). (i, val))
                                   (filter (\<lambda>(key, val). suffix key (take (Suc i) text)) A))
                          [0..<length text])))"

text \<open>\<open>pattern_to_caseids\<close>, a \<open>defaultdict(list)\<close>: the CaseIDs of each pattern, in order.\<close>

definition pattern_to_caseids :: "bool \<Rightarrow> string list \<Rightarrow> string \<Rightarrow> string list" where
  "pattern_to_caseids case_sensitive case_ids pattern =
     filter (\<lambda>cid. normalized case_sensitive cid = pattern) case_ids"

definition build_automaton :: "bool \<Rightarrow> string list \<Rightarrow> automaton" where
  "build_automaton case_sensitive case_ids =
     fold (\<lambda>cid A. add_word (normalized case_sensitive cid) (normalized case_sensitive cid) A)
       case_ids []"

text \<open>
  One folder: the set \<open>matched_patterns\<close> is walked in the order of first report (Python fixes
  no order for a set).
\<close>

definition aho_folder ::
  "bool \<Rightarrow> string list \<Rightarrow> automaton \<Rightarrow> FolderEntry \<Rightarrow> results \<Rightarrow> exn + results" where
  "aho_folder case_sensitive case_ids A folder res =
     (case automaton_iter A (normalized case_sensitive (name folder)) of
        Inl e \<Rightarrow> Inl e
      | Inr found \<Rightarrow>
          Inr (fold (\<lambda>pattern r.
                       fold (append_result folder)
                         (pattern_to_caseids case_sensitive case_ids pattern) r)
                 (remdups (map snd found)) res))"

fun aho_folders ::
  "bool \<Rightarrow> string list \<Rightarrow> automaton \<Rightarrow> FolderEntry list \<Rightarrow> results \<Rightarrow> exn + results" where
  "aho_folders case_sensitive case_ids A [] res = Inr res"
| "aho_folders case_sensitive case_ids A (folder # folders) res =
     (case aho_folder case_sensitive case_ids A folder res of
        Inl e \<Rightarrow> Inl e
      | Inr res' \<Rightarrow> aho_folders case_sensitive case_ids A folders res')"

definition match_with_ahocorasick ::
  "string list \<Rightarrow> FolderEntry list \<Rightarrow> bool \<Rightarrow> exn + results" where
  "match_with_ahocorasick case_ids folders case_sensitive =
     aho_folders case_sensitive case_ids (build_automaton case_sensitive case_ids)
       folders (results0 case_ids)"

subsection \<open>\<open>match_caseids\<close>\<close>

text \<open>
  \<open>has_ahocorasick\<close> is the module's flag \<open>HAS_AHOCORASICK\<close>: whether the library could be
  imported.
\<close>

definition match_caseids ::
  "bool \<Rightarrow> string list \<Rightarrow> FolderEntry list \<Rightarrow> bool \<Rightarrow> string \<Rightarrow> exn + results" where
  "match_caseids has_ahocorasick case_ids folders case_sensitive matcher =
     (if case_ids = [] \<or> folders = [] then Inr (results0 case_ids)
      else if matcher = ''aho'' then
        (if \<not> has_ahocorasick
         then Inr (match_with_length_buckets case_ids folders case_sensitive)
         else match_with_ahocorasick case_ids folders case_sensitive)
      else Inr (match_with_length_buckets case_ids folders case_sensitive))"

subsection \<open>For the statements about the matcher\<close>

text \<open>
  The containment test of both strategies, \<open>normalized in folder_name\<close>; the list that holds
  each folder satisfying \<open>P\<close>, in folder order, \<open>k\<close> times; and a dictionary entry with
  folders appended to it.
\<close>

definition contains_caseid :: "bool \<Rightarrow> string \<Rightarrow> FolderEntry \<Rightarrow> bool" where
  "contains_caseid case_sensitive cid folder \<longleftrightarrow>
     sublist (normalized case_sensitive cid) (normalized case_sensitive (name folder))"

definition listing :: "(FolderEntry \<Rightarrow> bool) \<Rightarrow> nat \<Rightarrow> FolderEntry list \<Rightarrow> FolderEntry list" where
  "listing P k folders = concat (map (\<lambda>folder. if P folder then replicate k folder else []) folders)"

definition appended :: "results \<Rightarrow> string \<Rightarrow> FolderEntry list \<Rightarrow> FolderEntry list option" where
  "appended res key new = (case res key of None \<Rightarrow> None | Some l \<Rightarrow> Some (l @ new))"

section \<open>Report rows (report.py)\<close>

definition quarantine_statuses :: "MoveStatus set" where
  "quarantine_statuses =
     {QUARANTINED, QUARANTINED_RENAMED, DRY_RUN_QUARANTINE, DRY_RUN_QUARANTINE_RENAMED}"

text \<open>
  \<open>ReportWriter.write_move_result\<close>, up to the \<open>ReportEntry\<close> it hands to \<open>write_entry\<close>.
  \<open>now\<close> is what \<open>_get_timestamp()\<close> returns; Python's \<open>x or y\<close> takes \<open>y\<close> when \<open>x\<close> is
  \<open>None\<close> or empty.
\<close>

definition write_move_result_status :: "MoveResult \<Rightarrow> bool \<Rightarrow> ReportStatus" where
  "write_move_result_status result is_multiple_match =
     (if status result \<in> quarantine_statuses then from_move_status (status result) False
      else if is_multiple_match then MULTIPLE_MATCHES
      else from_move_status (status result) False)"

definition write_move_result_message :: "MoveResult \<Rightarrow> bool \<Rightarrow> string" where
  "write_move_result_message result is_multiple_match =
     (if status result \<in> quarantine_statuses
      then (if is_multiple_match then ''[Multiple matches] '' @ message result
            else message result)
      else if is_multiple_match then ''[Multiple matches] '' @ message result
      else message result)"

definition write_move_result ::
  "string \<Rightarrow> MoveResult \<Rightarrow> bool \<Rightarrow> string option \<Rightarrow> ReportEntry" where
  "write_move_result now result is_multiple_match timestamp =
     \<lparr> entry_timestamp = (case timestamp of None \<Rightarrow> now
                           | Some t \<Rightarrow> if t = [] then now else t),
       entry_case_id = result_case_id result,
       entry_status = report_value (write_move_result_status result is_multiple_match),
       entry_source_path = result_source_path result,
       entry_dest_path = (case dest_path result of None \<Rightarrow> [] | Some d \<Rightarrow> d),
       entry_message = write_move_result_message result is_multiple_match \<rparr>"

section \<open>A reference environment for concrete runs\<close>

text \<open>
  A filesystem as the set of its directories and the set of its other files, every path on
  its own. \<open>glob\<close> is \<open>fnmatch\<close> for patterns made of \<open>*\<close>, \<open>?\<close> and plain characters.
\<close>

record filesystem =
  dirs :: "path set"
  files :: "path set"

fun glob :: "string \<Rightarrow> string \<Rightarrow> bool" where
  "glob [] s = (s = [])"
| "glob (p # ps) s =
     (if p = CHR ''*'' then
        (glob ps s \<or> (case s of [] \<Rightarrow> False | c # cs \<Rightarrow> glob (p # ps) cs))
      else (case s of [] \<Rightarrow> False | c # cs \<Rightarrow> (p = CHR ''?'' \<or> p = c) \<and> glob ps cs))"

text \<open>
  Modelled from the spec: \<open>safe_move\<close> of \<open>utils.py\<close>, which is not among the sources. The
  spec has the move primitive "perform an atomic-where-possible move", after which the
  source is gone and the destination is there; here it always succeeds.
\<close>

definition ref_safe_move :: "filesystem \<Rightarrow> path \<Rightarrow> path \<Rightarrow> (bool \<times> string) \<times> filesystem" where
  "ref_safe_move fs src dest =
     ((True, ''Moved successfully''), fs\<lparr> dirs := insert dest (dirs fs - {src}) \<rparr>)"

definition ref_os :: "filesystem os_api" where
  "ref_os =
     \<lparr> path_exists = (\<lambda>fs p. p \<in> dirs fs \<or> p \<in> files fs),
       path_isdir = (\<lambda>fs p. p \<in> dirs fs),
       makedirs = (\<lambda>fs p. (None, fs\<lparr> dirs := insert p (dirs fs) \<rparr>)),
       safe_move = ref_safe_move,
       fnmatch = (\<lambda>nm pattern. glob pattern nm) \<rparr>"

section \<open>The destination resolver\<close>

lemma digit_inj:
  "n < 10 \<Longrightarrow> m < 10 \<Longrightarrow> ''0123456789'' ! n = ''0123456789'' ! m \<Longrightarrow> n = m"
proof -
  assume a: "n < 10" "m < 10" "''0123456789'' ! n = ''0123456789'' ! m"
  have d: "distinct ''0123456789''" by simp
  have l: "length ''0123456789'' = 10" by simp
  from a d l show ?thesis by (metis nth_eq_iff_index_eq)
qed

lemma str_nat_nonempty: "str_nat n \<noteq> []"
  by (subst str_nat.simps) simp

lemma str_nat_digits: "set (str_nat n) \<subseteq> set ''0123456789''"
proof (induction n rule: str_nat.induct)
  case (1 n)
  show ?case
  proof (cases "n < 10")
    case True
    then have "''0123456789'' ! n \<in> set ''0123456789''"
      by (intro nth_mem) simp
    with True show ?thesis by (subst str_nat.simps) simp
  next
    case False
    have "n mod 10 < 10" by simp
    then have "''0123456789'' ! (n mod 10) \<in> set ''0123456789''"
      by (intro nth_mem) simp
    with False 1 show ?thesis by (subst str_nat.simps) simp
  qed
qed

lemma str_nat_no_sep: "CHR ''/'' \<notin> set (str_nat n)"
  using str_nat_digits [of n] by auto

lemma str_nat_inj: "str_nat n = str_nat m \<Longrightarrow> n = m"
proof (induction n arbitrary: m rule: str_nat.induct)
  case (1 n)
  show ?case
  proof (cases "n < 10")
    case n: True
    show ?thesis
    proof (cases "m < 10")
      case True
      with n 1(2) show ?thesis
        by (simp add: str_nat.simps [of n] str_nat.simps [of m] digit_inj)
    next
      case False
      with n 1(2) str_nat_nonempty [of "m div 10"] show ?thesis
        by (simp add: str_nat.simps [of n] str_nat.simps [of m])
    qed
  next
    case n: False
    show ?thesis
    proof (cases "m < 10")
      case True
      with n 1(2) str_nat_nonempty [of "n div 10"] show ?thesis
        by (simp add: str_nat.simps [of n] str_nat.simps [of m])
    next
      case False
      with n 1(2) have e: "str_nat (n div 10) = str_nat (m div 10)"
        and d: "''0123456789'' ! (n mod 10) = ''0123456789'' ! (m mod 10)"
        by (simp_all add: str_nat.simps [of n] str_nat.simps [of m])
      from 1(1) [OF n e] have "n div 10 = m div 10" .
      moreover from d have "n mod 10 = m mod 10" by (intro digit_inj) simp_all
      ultimately show ?thesis by (metis div_mult_mod_eq)
    qed
  qed
qed

lemma candidate_name_inj: "candidate_name fname j = candidate_name fname k \<Longrightarrow> j = k"
  by (auto simp: candidate_name_def dest: str_nat_inj split: if_splits)

lemma split_sep_nonempty: "split_sep s \<noteq> []"
  by (induction s) (auto split: list.splits)

lemma split_sep_no_sep: "CHR ''/'' \<notin> set nm \<Longrightarrow> split_sep nm = [nm]"
  by (induction nm) auto

lemma split_sep_snoc:
  "CHR ''/'' \<notin> set nm \<Longrightarrow> split_sep (s @ CHR ''/'' # nm) = split_sep s @ [nm]"
proof (induction s)
  case Nil
  then show ?case by (simp add: split_sep_no_sep)
next
  case (Cons c s)
  then show ?case
    using split_sep_nonempty [of s] by (cases "split_sep s") auto
qed

lemma path_parts_plain: "plain_name nm \<Longrightarrow> path_parts nm = [nm]"
  by (simp add: plain_name_def path_parts_def split_sep_no_sep)

lemma path_parts_snoc:
  "plain_name nm \<Longrightarrow> path_parts (s @ CHR ''/'' # nm) = path_parts s @ [nm]"
  by (simp add: plain_name_def path_parts_def split_sep_snoc)

lemma join_sep_snoc:
  "join_sep (ps @ [nm]) = (if ps = [] then nm else join_sep ps @ CHR ''/'' # nm)"
  by (induction ps rule: join_sep.induct) auto

lemma path_anchor_cases: "path_anchor p = [] \<or> path_anchor p = ''/'' \<or> path_anchor p = ''//''"
  by (simp add: path_anchor_def)

lemma path_join_plain:
  assumes "plain_name nm"
  shows "path_join root nm = nm \<or> (\<exists>s. path_join root nm = s @ CHR ''/'' # nm)"
proof -
  from assms have "take 1 nm \<noteq> ''/''"
    by (cases nm) (auto simp: plain_name_def)
  with assms have j: "path_join root nm
      = path_anchor root @ join_sep (path_parts root @ [nm])"
    by (simp add: path_join_def path_str_def path_parts_plain)
  show ?thesis
  proof (cases "path_parts root = []")
    case False
    with j have "path_join root nm
        = (path_anchor root @ join_sep (path_parts root)) @ CHR ''/'' # nm"
      by (simp add: join_sep_snoc)
    then show ?thesis by blast
  next
    case True
    with j have e: "path_join root nm = path_anchor root @ nm" by simp
    from path_anchor_cases [of root] show ?thesis
    proof (elim disjE)
      assume "path_anchor root = []"
      with e show ?thesis by simp
    next
      assume "path_anchor root = ''/''"
      with e have "path_join root nm = [] @ CHR ''/'' # nm" by simp
      then show ?thesis by blast
    next
      assume "path_anchor root = ''//''"
      with e have "path_join root nm = ''/'' @ CHR ''/'' # nm" by simp
      then show ?thesis by blast
    qed
  qed
qed

lemma path_name_join: "plain_name nm \<Longrightarrow> path_name (path_join root nm) = nm"
  using path_join_plain [of nm root]
  by (auto simp: path_name_def path_parts_plain path_parts_snoc)

lemma path_join_inj:
  "plain_name a \<Longrightarrow> plain_name b \<Longrightarrow> path_join root a = path_join root b \<Longrightarrow> a = b"
  by (metis path_name_join)

lemma candidate_name_plain:
  assumes "plain_name fname"
  shows "plain_name (candidate_name fname k)"
proof (cases "k = 0")
  case True
  with assms show ?thesis by (simp add: candidate_name_def)
next
  case False
  from str_nat_nonempty [of k] obtain d ds where "str_nat k = d # ds"
    by (cases "str_nat k") auto
  with assms False str_nat_no_sep [of k] show ?thesis
    by (cases fname) (auto simp: candidate_name_def plain_name_def)
qed

lemma resolve_suffix_frame: "snd (resolve_suffix os fs root fname ex c) = ex"
  by (induction os fs root fname ex c rule: resolve_suffix.induct)
     (subst resolve_suffix.simps, simp add: Let_def)

lemma resolve_suffix_found:
  "1 \<le> c \<Longrightarrow> c \<le> k \<Longrightarrow> k \<le> 10000 \<Longrightarrow> \<not> taken os fs root fname ex k \<Longrightarrow>
   \<forall>j. c \<le> j \<and> j < k \<longrightarrow> taken os fs root fname ex j \<Longrightarrow>
   fst (resolve_suffix os fs root fname ex c) = Inr (path_join root (candidate_name fname k))"
proof (induction os fs root fname ex c rule: resolve_suffix.induct)
  case (1 os fs root fname ex c)
  show ?case
  proof (cases "c = k")
    case True
    with 1(2-5) show ?thesis
      by (subst resolve_suffix.simps) (simp add: Let_def taken_def candidate_name_def)
  next
    case False
    with 1(3) have lt: "c < k" by simp
    with 1(6) have t: "taken os fs root fname ex c" by simp
    have "fst (resolve_suffix os fs root fname ex (c + 1)) = Inr (path_join root (candidate_name fname k))"
      using 1(1) [OF refl refl] t 1(2-6) lt
      by (auto simp: taken_def candidate_name_def)
    with t 1(2-4) lt show ?thesis
      by (subst resolve_suffix.simps) (auto simp: Let_def taken_def candidate_name_def)
  qed
qed

lemma resolve_suffix_exhausted:
  "1 \<le> c \<Longrightarrow> c \<le> 10000 \<Longrightarrow> \<forall>j. c \<le> j \<and> j \<le> 10000 \<longrightarrow> taken os fs root fname ex j \<Longrightarrow>
   fst (resolve_suffix os fs root fname ex c) = Inl (RuntimeError (exhausted_message fname))"
proof (induction os fs root fname ex c rule: resolve_suffix.induct)
  case (1 os fs root fname ex c)
  from 1(2-4) have t: "taken os fs root fname ex c" by simp
  show ?case
  proof (cases "c = 10000")
    case True
    with t 1(2) show ?thesis
      by (subst resolve_suffix.simps) (auto simp: Let_def taken_def candidate_name_def)
  next
    case False
    have "fst (resolve_suffix os fs root fname ex (c + 1)) = Inl (RuntimeError (exhausted_message fname))"
      using 1(1) [OF refl refl] t 1(2-4) False
      by (auto simp: taken_def candidate_name_def)
    with t 1(2,3) False show ?thesis
      by (subst resolve_suffix.simps) (auto simp: Let_def taken_def candidate_name_def)
  qed
qed

lemma resolve_destination_frame_aux: "snd (resolve_destination os fs root fname ex) = ex"
  by (simp add: resolve_destination_def Let_def resolve_suffix_frame)

lemma resolve_destination_found:
  assumes k: "k \<le> 10000" and free: "\<not> taken os fs root fname ex k"
    and below: "\<forall>j<k. taken os fs root fname ex j"
  shows "fst (resolve_destination os fs root fname ex) = Inr (path_join root (candidate_name fname k))"
proof (cases "k = 0")
  case True
  with free show ?thesis
    by (simp add: resolve_destination_def taken_def candidate_name_def Let_def)
next
  case False
  with below have t0: "taken os fs root fname ex 0" by simp
  have "fst (resolve_suffix os fs root fname ex 1) = Inr (path_join root (candidate_name fname k))"
    using False k free below by (intro resolve_suffix_found) auto
  with t0 show ?thesis
    by (auto simp: resolve_destination_def taken_def candidate_name_def Let_def)
qed

lemma resolve_all_taken:
  assumes "\<forall>k\<le>10000. taken os fs root fname ex k"
  shows "fst (resolve_destination os fs root fname ex) = Inl (RuntimeError (exhausted_message fname))"
proof -
  from assms have t0: "taken os fs root fname ex 0" by simp
  have "fst (resolve_suffix os fs root fname ex 1) = Inl (RuntimeError (exhausted_message fname))"
    using assms by (intro resolve_suffix_exhausted) auto
  with t0 show ?thesis
    by (auto simp: resolve_destination_def taken_def candidate_name_def Let_def)
qed

lemma first_free_exists:
  assumes "\<not> (\<forall>k\<le>(N::nat). T k)"
  shows "\<exists>k\<le>N. \<not> T k \<and> (\<forall>j<k. T j)"
proof -
  from assms obtain k0 where k0: "k0 \<le> N" "\<not> T k0" by auto
  define k where "k = (LEAST k. \<not> T k)"
  have "\<not> T k" unfolding k_def using k0(2) by (rule LeastI)
  moreover have "k \<le> k0" unfolding k_def using k0(2) by (rule Least_le)
  moreover have "\<forall>j<k. T j" unfolding k_def using not_less_Least by blast
  ultimately have "k \<le> N \<and> \<not> T k \<and> (\<forall>j<k. T j)" using k0(1) by simp
  then show ?thesis by blast
qed

lemma resolve_destination_cases:
  "(\<exists>k\<le>10000. \<not> taken os fs root fname ex k \<and> (\<forall>j<k. taken os fs root fname ex j)
      \<and> fst (resolve_destination os fs root fname ex) = Inr (path_join root (candidate_name fname k)))
   \<or> ((\<forall>k\<le>10000. taken os fs root fname ex k)
      \<and> fst (resolve_destination os fs root fname ex) = Inl (RuntimeError (exhausted_message fname)))"
proof (cases "\<forall>k\<le>10000. taken os fs root fname ex k")
  case True
  from resolve_all_taken [OF True] True show ?thesis by simp
next
  case False
  from first_free_exists [OF this] obtain k where k:
    "k \<le> 10000" "\<not> taken os fs root fname ex k" "\<forall>j<k. taken os fs root fname ex j" by blast
  from resolve_destination_found [OF k] k have
    "k \<le> 10000 \<and> \<not> taken os fs root fname ex k \<and> (\<forall>j<k. taken os fs root fname ex j)
      \<and> fst (resolve_destination os fs root fname ex) = Inr (path_join root (candidate_name fname k))"
    by simp
  then show ?thesis by (intro disjI1 exI [of _ k])
qed

lemma resolve_destination_Inr:
  assumes "fst (resolve_destination os fs root fname ex) = Inr p"
  shows "\<exists>k\<le>10000. p = path_join root (candidate_name fname k)
           \<and> \<not> taken os fs root fname ex k \<and> (\<forall>j<k. taken os fs root fname ex j)"
proof -
  from resolve_destination_cases [of os fs root fname ex] show ?thesis
  proof
    assume "\<exists>k\<le>10000. \<not> taken os fs root fname ex k \<and> (\<forall>j<k. taken os fs root fname ex j)
      \<and> fst (resolve_destination os fs root fname ex) = Inr (path_join root (candidate_name fname k))"
    then obtain k where "k \<le> 10000" "\<not> taken os fs root fname ex k"
      "\<forall>j<k. taken os fs root fname ex j"
      "fst (resolve_destination os fs root fname ex) = Inr (path_join root (candidate_name fname k))"
      by blast
    with assms have "k \<le> 10000 \<and> p = path_join root (candidate_name fname k)
           \<and> \<not> taken os fs root fname ex k \<and> (\<forall>j<k. taken os fs root fname ex j)" by simp
    then show ?thesis by (intro exI [of _ k])
  next
    assume "(\<forall>k\<le>10000. taken os fs root fname ex k)
      \<and> fst (resolve_destination os fs root fname ex) = Inl (RuntimeError (exhausted_message fname))"
    with assms show ?thesis by simp
  qed
qed

lemma resolve_destination_Inl:
  assumes "fst (resolve_destination os fs root fname ex) = Inl e"
  shows "e = RuntimeError (exhausted_message fname) \<and> (\<forall>k\<le>10000. taken os fs root fname ex k)"
proof -
  from resolve_destination_cases [of os fs root fname ex] show ?thesis
  proof
    assume "\<exists>k\<le>10000. \<not> taken os fs root fname ex k \<and> (\<forall>j<k. taken os fs root fname ex j)
      \<and> fst (resolve_destination os fs root fname ex) = Inr (path_join root (candidate_name fname k))"
    with assms show ?thesis by auto
  next
    assume "(\<forall>k\<le>10000. taken os fs root fname ex k)
      \<and> fst (resolve_destination os fs root fname ex) = Inl (RuntimeError (exhausted_message fname))"
    with assms show ?thesis by simp
  qed
qed

lemma resolve_destination_index:
  assumes "plain_name fname"
    and "fst (resolve_destination os fs root fname ex)
           = Inr (path_join root (candidate_name fname k))"
  shows "k \<le> 10000 \<and> \<not> taken os fs root fname ex k \<and> (\<forall>j<k. taken os fs root fname ex j)"
proof -
  from resolve_destination_Inr [OF assms(2)] obtain k' where k':
    "k' \<le> 10000"
    "path_join root (candidate_name fname k) = path_join root (candidate_name fname k')"
    "\<not> taken os fs root fname ex k'" "\<forall>j<k'. taken os fs root fname ex j" by blast
  have "candidate_name fname k = candidate_name fname k'"
    by (rule path_join_inj [OF candidate_name_plain [OF assms(1)]
          candidate_name_plain [OF assms(1)] k'(2)])
  then have "k = k'" by (rule candidate_name_inj)
  with k' show ?thesis by simp
qed

lemma resolve_destination_increasing:
  assumes pl: "plain_name fname"
    and r1: "fst (resolve_destination os fs root fname ex)
               = Inr (path_join root (candidate_name fname k1))"
    and r2: "fst (resolve_destination os fs' root fname ex')
               = Inr (path_join root (candidate_name fname k2))"
    and grow: "insert (candidate_name fname k1) ex \<subseteq> ex'"
    and disk: "\<forall>q. path_exists os fs q \<longrightarrow> path_exists os fs' q"
  shows "k1 < k2"
proof (rule ccontr)
  assume "\<not> k1 < k2"
  then have le: "k2 \<le> k1" by simp
  from resolve_destination_index [OF pl r1] have b1: "\<forall>j<k1. taken os fs root fname ex j"
    by simp
  from resolve_destination_index [OF pl r2] have f2: "\<not> taken os fs' root fname ex' k2"
    by simp
  have mono: "taken os fs root fname ex j \<Longrightarrow> taken os fs' root fname ex' j" for j
    using grow disk by (auto simp: taken_def)
  show False
  proof (cases "k2 = k1")
    case True
    with grow have "taken os fs' root fname ex' k2" by (auto simp: taken_def)
    with f2 show False ..
  next
    case False
    with le have "k2 < k1" by simp
    with b1 have "taken os fs root fname ex k2" by simp
    with mono f2 show False by blast
  qed
qed

lemma less_two_cases: "(\<forall>j<(2::nat). P j) \<longleftrightarrow> P 0 \<and> P 1"
proof -
  have "j < 2 \<longleftrightarrow> j = 0 \<or> j = 1" for j :: nat by auto
  then show ?thesis by auto
qed

lemma all_candidates_claimed:
  "k \<le> 10000 \<Longrightarrow> taken os fs root fname (candidate_name fname ` {0..10000}) k"
  by (simp add: taken_def)

section \<open>The engine, branch by branch\<close>

lemma claimed_names_count_status [simp]: "claimed_names (count_status s st) = claimed_names st"
  by (simp add: count_status_def)

lemma quarantine_claimed_count_status [simp]:
  "quarantine_claimed (count_status s st) = quarantine_claimed st"
  by (simp add: count_status_def)

lemma stats_count_status [simp]:
  "stats (count_status s st) = (stats st)(s := stats st s + 1)"
  by (simp add: count_status_def)

lemma move_folder_primitive:
  "result_source_path (fst (move_folder os fs src dest dry)) = src
   \<and> result_case_id (fst (move_folder os fs src dest dry)) = []"
  by (simp add: move_folder_def split: prod.splits option.splits bool.splits)

lemma move_folder_dry:
  "snd (move_folder os fs src dest True) = fs
   \<and> status (fst (move_folder os fs src dest True)) =
       (if \<not> path_exists os fs src then SKIPPED_MISSING
        else if \<not> path_isdir os fs src then ERROR
        else if path_exists os fs dest then SKIPPED_EXISTS else DRY_RUN)
   \<and> dest_path (fst (move_folder os fs src dest True)) =
       (if \<not> path_exists os fs src \<or> \<not> path_isdir os fs src then None else Some dest)"
  by (simp add: move_folder_def)

lemma move_folder_live:
  "status (fst (move_folder os fs src dest False)) =
       (if \<not> path_exists os fs src then SKIPPED_MISSING
        else if \<not> path_isdir os fs src then ERROR
        else if path_exists os fs dest then SKIPPED_EXISTS
        else if fst (makedirs os fs (path_parent dest)) \<noteq> None then ERROR
        else if fst (fst (safe_move os (snd (makedirs os fs (path_parent dest))) src dest))
        then SUCCESS else ERROR)
   \<and> dest_path (fst (move_folder os fs src dest False)) =
       (if \<not> path_exists os fs src \<or> \<not> path_isdir os fs src then None else Some dest)"
  by (simp add: move_folder_def split: prod.splits option.splits bool.splits)


lemma resolve_quarantine_destination_eq:
  "resolve_quarantine_destination os cfg fs st cid fname =
     (case fst (resolve_destination os fs
                  (path_join (path_join (dest_root cfg) DUPLICATES_FOLDER) cid) fname
                  (case quarantine_claimed st cid of None \<Rightarrow> {} | Some c \<Rightarrow> c)) of
        Inl e \<Rightarrow> Inl e
      | Inr dest \<Rightarrow>
          Inr (dest, st\<lparr> quarantine_claimed :=
                 (quarantine_claimed st)(cid \<mapsto> insert (path_name dest)
                    (case quarantine_claimed st cid of None \<Rightarrow> {} | Some c \<Rightarrow> c)) \<rparr>))"
proof -
  let ?root = "path_join (path_join (dest_root cfg) DUPLICATES_FOLDER) cid"
  let ?c = "case quarantine_claimed st cid of None \<Rightarrow> {} | Some c \<Rightarrow> c"
  obtain r c' where rc: "resolve_destination os fs ?root fname ?c = (r, c')"
    by (cases "resolve_destination os fs ?root fname ?c")
  from resolve_destination_frame_aux [of os fs ?root fname ?c] rc have c': "c' = ?c" by simp
  show ?thesis
  proof (cases "quarantine_claimed st cid")
    case None
    with rc c' show ?thesis
      by (cases r) (simp_all add: resolve_quarantine_destination_def Let_def dom_def)
  next
    case (Some c)
    with rc c' show ?thesis
      by (cases r) (simp_all add: resolve_quarantine_destination_def Let_def dom_def)
  qed
qed

lemma move_to_quarantine_Inl:
  assumes "fst (resolve_destination os fs
                  (path_join (path_join (dest_root cfg) DUPLICATES_FOLDER) (case_id m))
                  (folder_name m)
                  (case quarantine_claimed st (case_id m) of None \<Rightarrow> {} | Some c \<Rightarrow> c))
           = Inl e"
  shows "move_to_quarantine os cfg fs st m = Inl e"
  using assms by (simp add: move_to_quarantine_def resolve_quarantine_destination_eq)

lemma move_to_quarantine_Inr:
  assumes "fst (resolve_destination os fs
                  (path_join (path_join (dest_root cfg) DUPLICATES_FOLDER) (case_id m))
                  (folder_name m)
                  (case quarantine_claimed st (case_id m) of None \<Rightarrow> {} | Some c \<Rightarrow> c))
           = Inr dest"
  shows "\<exists>r. move_to_quarantine os cfg fs st m =
           Inr (r, snd (move_folder os fs (source_path m) dest (dry_run cfg)),
                count_status (status r)
                  (st\<lparr> quarantine_claimed :=
                     (quarantine_claimed st)(case_id m \<mapsto> insert (path_name dest)
                        (case quarantine_claimed st (case_id m) of
                           None \<Rightarrow> {} | Some c \<Rightarrow> c)) \<rparr>))
         \<and> result_case_id r = case_id m
         \<and> result_source_path r = source_path m
         \<and> dest_path r = dest_path (fst (move_folder os fs (source_path m) dest (dry_run cfg)))
         \<and> status r = quarantine_status
               (status (fst (move_folder os fs (source_path m) dest (dry_run cfg))))
               (path_name dest \<noteq> folder_name m)"
  using assms
  by (simp add: move_to_quarantine_def resolve_quarantine_destination_eq Let_def
        case_prod_beta quarantine_status_def move_folder_primitive)


lemma mf_excluded:
  assumes "excluded_by os cfg (folder_name m) = Some p"
  shows "FolderMover_move_folder os cfg fs st m =
           Inr (\<lparr> result_case_id = case_id m, result_source_path = source_path m,
                  dest_path = None, status = SKIPPED_EXCLUDED, message = msg_excluded p \<rparr>,
                fs, count_status SKIPPED_EXCLUDED st)"
  using assms by (simp add: FolderMover_move_folder_def)

lemma mf_resume:
  assumes "excluded_by os cfg (folder_name m) = None"
    and "source_path m \<in> already_moved_paths cfg"
  shows "FolderMover_move_folder os cfg fs st m =
           Inr (\<lparr> result_case_id = case_id m, result_source_path = source_path m,
                  dest_path = None, status = SKIPPED_RESUME, message = msg_resumed \<rparr>,
                fs, count_status SKIPPED_RESUME st)"
  using assms by (simp add: FolderMover_move_folder_def)

lemma mf_missing:
  assumes "excluded_by os cfg (folder_name m) = None"
    and "source_path m \<notin> already_moved_paths cfg"
    and "\<not> path_exists os fs (source_path m)"
  shows "FolderMover_move_folder os cfg fs st m =
           Inr (\<lparr> result_case_id = case_id m, result_source_path = source_path m,
                  dest_path = None, status = SKIPPED_MISSING, message = msg_source_missing \<rparr>,
                fs, count_status SKIPPED_MISSING st)"
  using assms by (simp add: FolderMover_move_folder_def)

lemma mf_duplicate:
  assumes "excluded_by os cfg (folder_name m) = None"
    and "source_path m \<notin> already_moved_paths cfg"
    and "path_exists os fs (source_path m)"
    and "case_id m \<in> duplicate_case_ids cfg" and "duplicates_action cfg = ''skip''"
  shows "FolderMover_move_folder os cfg fs st m =
           Inr (\<lparr> result_case_id = case_id m, result_source_path = source_path m,
                  dest_path = None, status = SKIPPED_DUPLICATE,
                  message = msg_duplicate_skipped \<rparr>,
                fs, count_status SKIPPED_DUPLICATE st)"
  using assms by (simp add: FolderMover_move_folder_def)

lemma mf_quarantine:
  assumes "excluded_by os cfg (folder_name m) = None"
    and "source_path m \<notin> already_moved_paths cfg"
    and "path_exists os fs (source_path m)"
    and "case_id m \<in> duplicate_case_ids cfg" and "duplicates_action cfg = ''quarantine''"
  shows "FolderMover_move_folder os cfg fs st m = move_to_quarantine os cfg fs st m"
  using assms by (simp add: FolderMover_move_folder_def)

text \<open>The match goes to the main destination: it is no duplicate, or the policy is move-all.\<close>

lemma mf_exists_skip:
  assumes "excluded_by os cfg (folder_name m) = None"
    and "source_path m \<notin> already_moved_paths cfg"
    and "path_exists os fs (source_path m)"
    and "case_id m \<notin> duplicate_case_ids cfg
         \<or> (duplicates_action cfg \<noteq> ''skip'' \<and> duplicates_action cfg \<noteq> ''quarantine'')"
    and "path_exists os fs (path_join (dest_root cfg) (folder_name m))
         \<or> folder_name m \<in> claimed_names st"
    and "on_dest_exists cfg = ''skip''"
  shows "FolderMover_move_folder os cfg fs st m =
           Inr (\<lparr> result_case_id = case_id m, result_source_path = source_path m,
                  dest_path = Some (path_join (dest_root cfg) (folder_name m)),
                  status = SKIPPED_EXISTS, message = msg_dest_exists_skipped \<rparr>,
                fs, count_status SKIPPED_EXISTS st)"
  using assms by (auto simp: FolderMover_move_folder_def Let_def)

lemma mf_main_Inl:
  assumes "excluded_by os cfg (folder_name m) = None"
    and "source_path m \<notin> already_moved_paths cfg"
    and "path_exists os fs (source_path m)"
    and "case_id m \<notin> duplicate_case_ids cfg
         \<or> (duplicates_action cfg \<noteq> ''skip'' \<and> duplicates_action cfg \<noteq> ''quarantine'')"
    and "\<not> ((path_exists os fs (path_join (dest_root cfg) (folder_name m))
              \<or> folder_name m \<in> claimed_names st) \<and> on_dest_exists cfg = ''skip'')"
    and "fst (resolve_destination os fs (dest_root cfg) (folder_name m) (claimed_names st))
           = Inl e"
  shows "FolderMover_move_folder os cfg fs st m = Inl e"
proof -
  obtain rr c' where rc:
    "resolve_destination os fs (dest_root cfg) (folder_name m) (claimed_names st) = (rr, c')"
    by (cases "resolve_destination os fs (dest_root cfg) (folder_name m) (claimed_names st)")
  with assms(6) have "rr = Inl e" by simp
  with assms(1-5) rc show ?thesis
    by (auto simp: FolderMover_move_folder_def Let_def)
qed

lemma mf_main_Inr:
  assumes "excluded_by os cfg (folder_name m) = None"
    and "source_path m \<notin> already_moved_paths cfg"
    and "path_exists os fs (source_path m)"
    and "case_id m \<notin> duplicate_case_ids cfg
         \<or> (duplicates_action cfg \<noteq> ''skip'' \<and> duplicates_action cfg \<noteq> ''quarantine'')"
    and "\<not> ((path_exists os fs (path_join (dest_root cfg) (folder_name m))
              \<or> folder_name m \<in> claimed_names st) \<and> on_dest_exists cfg = ''skip'')"
    and "fst (resolve_destination os fs (dest_root cfg) (folder_name m) (claimed_names st))
           = Inr dest"
  shows "\<exists>r. FolderMover_move_folder os cfg fs st m =
           Inr (r, snd (move_folder os fs (source_path m) dest (dry_run cfg)),
                count_status (status r)
                  (st\<lparr> claimed_names := insert (path_name dest) (claimed_names st) \<rparr>))
         \<and> result_case_id r = case_id m
         \<and> result_source_path r = source_path m
         \<and> dest_path r = dest_path (fst (move_folder os fs (source_path m) dest (dry_run cfg)))
         \<and> status r = main_status
               (status (fst (move_folder os fs (source_path m) dest (dry_run cfg))))
               (path_name dest \<noteq> folder_name m)"
proof -
  obtain rr c' where rc:
    "resolve_destination os fs (dest_root cfg) (folder_name m) (claimed_names st) = (rr, c')"
    by (cases "resolve_destination os fs (dest_root cfg) (folder_name m) (claimed_names st)")
  from resolve_destination_frame_aux
    [of os fs "dest_root cfg" "folder_name m" "claimed_names st"] rc
  have c': "c' = claimed_names st" by simp
  from rc assms(6) have "rr = Inr dest" by simp
  with assms(1-5) rc c' show ?thesis
    by (auto simp: FolderMover_move_folder_def Let_def case_prod_beta main_status_def
          move_folder_primitive)
qed

lemma move_folder_shape:
  "FolderMover_move_folder os cfg fs st m = Inl (RuntimeError (exhausted_message (folder_name m)))
   \<or> (\<exists>r fs' st0. FolderMover_move_folder os cfg fs st m
                      = Inr (r, fs', count_status (status r) st0)
          \<and> result_case_id r = case_id m \<and> result_source_path r = source_path m
          \<and> stats st0 = stats st)"
  (is "?L \<or> ?R")
proof (cases "excluded_by os cfg (folder_name m)")
  case (Some p)
  from mf_excluded [OF Some, of fs st] show ?thesis by fastforce
next
  case ex: None
  show ?thesis
  proof (cases "source_path m \<in> already_moved_paths cfg")
    case True
    from mf_resume [OF ex True, of fs st] show ?thesis by fastforce
  next
    case nres: False
    show ?thesis
    proof (cases "path_exists os fs (source_path m)")
      case False
      from mf_missing [OF ex nres False, of st] show ?thesis by fastforce
    next
      case src: True
      show ?thesis
      proof (cases "case_id m \<in> duplicate_case_ids cfg \<and> duplicates_action cfg = ''skip''")
        case True
        then have d: "case_id m \<in> duplicate_case_ids cfg" "duplicates_action cfg = ''skip''"
          by simp_all
        from mf_duplicate [OF ex nres src d, of st] show ?thesis by fastforce
      next
        case nskip: False
        show ?thesis
        proof (cases "case_id m \<in> duplicate_case_ids cfg
                       \<and> duplicates_action cfg = ''quarantine''")
          case True
          then have d: "case_id m \<in> duplicate_case_ids cfg"
            "duplicates_action cfg = ''quarantine''" by simp_all
          note q = mf_quarantine [OF ex nres src d, of st]
          let ?res = "fst (resolve_destination os fs
                  (path_join (path_join (dest_root cfg) DUPLICATES_FOLDER) (case_id m))
                  (folder_name m)
                  (case quarantine_claimed st (case_id m) of None \<Rightarrow> {} | Some c \<Rightarrow> c))"
          show ?thesis
          proof (cases ?res)
            case (Inl e)
            from resolve_destination_Inl [OF Inl]
            have "e = RuntimeError (exhausted_message (folder_name m))" by simp
            with move_to_quarantine_Inl [OF Inl] q show ?thesis by simp
          next
            case (Inr dest)
            define st0 where "st0 = st\<lparr> quarantine_claimed :=
                     (quarantine_claimed st)(case_id m \<mapsto> insert (path_name dest)
                        (case quarantine_claimed st (case_id m) of
                           None \<Rightarrow> {} | Some c \<Rightarrow> c)) \<rparr>"
            define fs2 where "fs2 = snd (move_folder os fs (source_path m) dest (dry_run cfg))"
            from move_to_quarantine_Inr [OF Inr] q obtain r where
              r: "FolderMover_move_folder os cfg fs st m = Inr (r, fs2, count_status (status r) st0)"
              "result_case_id r = case_id m" "result_source_path r = source_path m"
              unfolding st0_def fs2_def by auto
            have "stats st0 = stats st" by (simp add: st0_def)
            with r have ?R by blast
            then show ?thesis ..
          qed
        next
          case nq: False
          from nskip nq have nd: "case_id m \<notin> duplicate_case_ids cfg
            \<or> (duplicates_action cfg \<noteq> ''skip'' \<and> duplicates_action cfg \<noteq> ''quarantine'')"
            by blast
          show ?thesis
          proof (cases "(path_exists os fs (path_join (dest_root cfg) (folder_name m))
                          \<or> folder_name m \<in> claimed_names st) \<and> on_dest_exists cfg = ''skip''")
            case True
            then have e: "path_exists os fs (path_join (dest_root cfg) (folder_name m))
                          \<or> folder_name m \<in> claimed_names st" "on_dest_exists cfg = ''skip''"
              by simp_all
            from mf_exists_skip [OF ex nres src nd e] show ?thesis by fastforce
          next
            case nex: False
            let ?res = "fst (resolve_destination os fs (dest_root cfg) (folder_name m)
                               (claimed_names st))"
            show ?thesis
            proof (cases ?res)
              case (Inl e)
              from resolve_destination_Inl [OF Inl]
              have "e = RuntimeError (exhausted_message (folder_name m))" by simp
              with mf_main_Inl [OF ex nres src nd nex Inl] show ?thesis by simp
            next
              case (Inr dest)
              define st0 where
                "st0 = st\<lparr> claimed_names := insert (path_name dest) (claimed_names st) \<rparr>"
              define fs2 where
                "fs2 = snd (move_folder os fs (source_path m) dest (dry_run cfg))"
              from mf_main_Inr [OF ex nres src nd nex Inr] obtain r where
                r: "FolderMover_move_folder os cfg fs st m
                      = Inr (r, fs2, count_status (status r) st0)"
                "result_case_id r = case_id m" "result_source_path r = source_path m"
                unfolding st0_def fs2_def by auto
              have "stats st0 = stats st" by (simp add: st0_def)
              with r have ?R by blast
              then show ?thesis ..
            qed
          qed
        qed
      qed
    qed
  qed
qed

lemma move_folder_result_id:
  assumes "FolderMover_move_folder os cfg fs st m = Inr (r, fs', st')"
  shows "result_case_id r = case_id m"
  using move_folder_shape [of os cfg fs st m] assms by auto

lemma move_folder_error:
  assumes "FolderMover_move_folder os cfg fs st m = Inl e"
  shows "e = RuntimeError (exhausted_message (folder_name m))"
  using move_folder_shape [of os cfg fs st m] assms by auto

section \<open>The batch loop\<close>

lemma count_ops_append: "count_ops (xs @ ys) = count_ops xs + count_ops ys"
  by (simp add: count_ops_def)

lemma count_ops_Cons:
  "count_ops (r # rs) = (if status r \<in> OP_STATUSES then 1 else 0) + count_ops rs"
  by (simp add: count_ops_def)

lemma count_ops_Nil [simp]: "count_ops [] = 0"
  by (simp add: count_ops_def)

lemma move_all_loop_Inr:
  assumes "move_all_loop os cfg ms results ops fs st = Inr (out, fs', st')"
  shows "\<exists>new. out = results @ new
           \<and> length new \<le> length ms
           \<and> map result_case_id new = take (length new) (map case_id ms)
           \<and> (length new < length ms \<longrightarrow> limit_reached cfg (ops + count_ops new))
           \<and> (\<forall>k. max_moves cfg = Some k \<longrightarrow> new = [] \<or> int (ops + count_ops new) \<le> k)"
  using assms
proof (induction ms arbitrary: results ops fs st)
  case Nil
  then show ?case by simp
next
  case (Cons m ms)
  show ?case
  proof (cases "limit_reached cfg ops")
    case True
    with Cons.prems have "out = results" by simp
    with True show ?thesis by simp
  next
    case False
    with Cons.prems obtain r fs1 st1 where
      mf: "FolderMover_move_folder os cfg fs st m = Inr (r, fs1, st1)"
      and rec: "move_all_loop os cfg ms (results @ [r])
                  (if status r \<in> OP_STATUSES then ops + 1 else ops) fs1 st1
                = Inr (out, fs', st')"
      by (auto split: sum.splits)
    let ?ops = "if status r \<in> OP_STATUSES then ops + 1 else ops"
    from Cons.IH [OF rec] obtain new where new:
      "out = (results @ [r]) @ new" "length new \<le> length ms"
      "map result_case_id new = take (length new) (map case_id ms)"
      "length new < length ms \<longrightarrow> limit_reached cfg (?ops + count_ops new)"
      "\<forall>k. max_moves cfg = Some k \<longrightarrow> new = [] \<or> int (?ops + count_ops new) \<le> k"
      by blast
    have id: "result_case_id r = case_id m" by (rule move_folder_result_id [OF mf])
    have ops: "?ops + count_ops new = ops + count_ops (r # new)"
      by (simp add: count_ops_Cons)
    have budget: "int (ops + count_ops (r # new)) \<le> k"
      if k: "max_moves cfg = Some k" for k
    proof -
      from False k have lt: "int ops < k" by (simp add: limit_reached_def)
      from new(5) k have "new = [] \<or> int (?ops + count_ops new) \<le> k" by blast
      then show ?thesis
      proof
        assume "new = []"
        with lt show ?thesis by (simp add: count_ops_Cons)
      next
        assume "int (?ops + count_ops new) \<le> k"
        with ops show ?thesis by simp
      qed
    qed
    have "out = results @ (r # new)" using new(1) by simp
    moreover have "length (r # new) \<le> length (m # ms)" using new(2) by simp
    moreover have "map result_case_id (r # new)
        = take (length (r # new)) (map case_id (m # ms))"
      using new(3) id by simp
    moreover have "length (r # new) < length (m # ms)
        \<longrightarrow> limit_reached cfg (ops + count_ops (r # new))"
      using new(4) ops by simp
    moreover have "\<forall>k. max_moves cfg = Some k \<longrightarrow>
        r # new = [] \<or> int (ops + count_ops (r # new)) \<le> k"
      using budget by blast
    ultimately show ?thesis by blast
  qed
qed

lemma move_all_loop_Inl:
  assumes "move_all_loop os cfg ms results ops fs st = Inl e"
  shows "\<exists>m\<in>set ms. e = RuntimeError (exhausted_message (folder_name m))"
  using assms
proof (induction ms arbitrary: results ops fs st)
  case Nil
  then show ?case by simp
next
  case (Cons m ms)
  show ?case
  proof (cases "limit_reached cfg ops")
    case True
    with Cons.prems show ?thesis by simp
  next
    case False
    show ?thesis
    proof (cases "FolderMover_move_folder os cfg fs st m")
      case (Inl e')
      with False Cons.prems have "e' = e" by simp
      with move_folder_error [OF Inl] show ?thesis by simp
    next
      case (Inr a)
      obtain r fs1 st1 where a: "a = (r, fs1, st1)" by (cases a)
      from False Cons.prems Inr a have "move_all_loop os cfg ms (results @ [r])
          (if status r \<in> OP_STATUSES then ops + 1 else ops) fs1 st1 = Inl e"
        by simp
      from Cons.IH [OF this] show ?thesis by simp
    qed
  qed
qed


lemma move_all_loop_steps:
  assumes "move_all_loop os cfg ms results ops fs st = Inr (results @ new, fs', st')"
    and "i < length new"
  shows "\<exists>fs_i st_i fs_n st_n.
           move_all_loop os cfg (take i ms) results ops fs st
             = Inr (results @ take i new, fs_i, st_i)
           \<and> \<not> limit_reached cfg (ops + count_ops (take i new))
           \<and> FolderMover_move_folder os cfg fs_i st_i (ms ! i) = Inr (new ! i, fs_n, st_n)"
  using assms
proof (induction ms arbitrary: results ops fs st new i)
  case Nil
  then show ?case by simp
next
  case (Cons m ms)
  show ?case
  proof (cases "limit_reached cfg ops")
    case True
    with Cons.prems show ?thesis by simp
  next
    case False
    with Cons.prems(1) obtain r fs1 st1 where
      mf: "FolderMover_move_folder os cfg fs st m = Inr (r, fs1, st1)"
      and rec: "move_all_loop os cfg ms (results @ [r])
                  (if status r \<in> OP_STATUSES then ops + 1 else ops) fs1 st1
                = Inr (results @ new, fs', st')"
      by (auto split: sum.splits)
    let ?ops = "if status r \<in> OP_STATUSES then ops + 1 else ops"
    from move_all_loop_Inr [OF rec] obtain new' where "results @ new = (results @ [r]) @ new'"
      by blast
    then have new: "new = r # new'" by simp
    show ?thesis
    proof (cases i)
      case 0
      with False mf new show ?thesis by simp
    next
      case (Suc j)
      with Cons.prems(2) new have j: "j < length new'" by simp
      from rec new have "move_all_loop os cfg ms (results @ [r]) ?ops fs1 st1
          = Inr ((results @ [r]) @ new', fs', st')"
        by simp
      from Cons.IH [OF this j] obtain fs_i st_i fs_n st_n where
        a: "move_all_loop os cfg (take j ms) (results @ [r]) ?ops fs1 st1
              = Inr ((results @ [r]) @ take j new', fs_i, st_i)"
        and b: "\<not> limit_reached cfg (?ops + count_ops (take j new'))"
        and c: "FolderMover_move_folder os cfg fs_i st_i (ms ! j) = Inr (new' ! j, fs_n, st_n)"
        by blast
      have "?ops + count_ops (take j new') = ops + count_ops (take i new)"
        using Suc new by (simp add: count_ops_Cons)
      with b have b': "\<not> limit_reached cfg (ops + count_ops (take i new))" by simp
      from a False mf Suc new have
        "move_all_loop os cfg (take i (m # ms)) results ops fs st
           = Inr (results @ take i new, fs_i, st_i)"
        by simp
      moreover from c Suc new have
        "FolderMover_move_folder os cfg fs_i st_i ((m # ms) ! i) = Inr (new ! i, fs_n, st_n)"
        by simp
      ultimately show ?thesis using b' by blast
    qed
  qed
qed

lemma move_all_loop_raises_at:
  assumes "move_all_loop os cfg ms results ops fs st = Inl e"
  shows "\<exists>i<length ms. \<exists>new fs_i st_i.
           move_all_loop os cfg (take i ms) results ops fs st = Inr (results @ new, fs_i, st_i)
           \<and> length new = i
           \<and> \<not> limit_reached cfg (ops + count_ops new)
           \<and> FolderMover_move_folder os cfg fs_i st_i (ms ! i) = Inl e"
  using assms
proof (induction ms arbitrary: results ops fs st)
  case Nil
  then show ?case by simp
next
  case (Cons m ms)
  show ?case
  proof (cases "limit_reached cfg ops")
    case True
    with Cons.prems show ?thesis by simp
  next
    case False
    show ?thesis
    proof (cases "FolderMover_move_folder os cfg fs st m")
      case (Inl e')
      with False Cons.prems have "e' = e" by simp
      with Inl False have "move_all_loop os cfg (take 0 (m # ms)) results ops fs st
            = Inr (results @ [], fs, st)
          \<and> length ([] :: MoveResult list) = 0
          \<and> \<not> limit_reached cfg (ops + count_ops [])
          \<and> FolderMover_move_folder os cfg fs st ((m # ms) ! 0) = Inl e"
        by simp
      then show ?thesis by blast
    next
      case (Inr a)
      obtain r fs1 st1 where a: "a = (r, fs1, st1)" by (cases a)
      let ?ops = "if status r \<in> OP_STATUSES then ops + 1 else ops"
      from False Cons.prems Inr a have "move_all_loop os cfg ms (results @ [r]) ?ops fs1 st1
          = Inl e"
        by simp
      from Cons.IH [OF this] obtain i new fs_i st_i where i: "i < length ms"
        and l: "move_all_loop os cfg (take i ms) (results @ [r]) ?ops fs1 st1
                  = Inr ((results @ [r]) @ new, fs_i, st_i)"
        and n: "length new = i"
        and b: "\<not> limit_reached cfg (?ops + count_ops new)"
        and c: "FolderMover_move_folder os cfg fs_i st_i (ms ! i) = Inl e"
        by blast
      have "?ops + count_ops new = ops + count_ops (r # new)"
        by (simp add: count_ops_Cons)
      with b have b': "\<not> limit_reached cfg (ops + count_ops (r # new))" by simp
      from l False Inr a have
        "move_all_loop os cfg (take (Suc i) (m # ms)) results ops fs st
           = Inr (results @ (r # new), fs_i, st_i)"
        by simp
      moreover from n have "length (r # new) = Suc i" by simp
      moreover from c have "FolderMover_move_folder os cfg fs_i st_i ((m # ms) ! Suc i) = Inl e"
        by simp
      moreover from i have "Suc i < length (m # ms)" by simp
      ultimately show ?thesis using b' by blast
    qed
  qed
qed

subsection \<open>Which branch a match reaches, and exceptions in a batch\<close>

lemma reaches_main_conditions:
  assumes "reaches_main os cfg fs st m"
  shows "excluded_by os cfg (folder_name m) = None"
    and "source_path m \<notin> already_moved_paths cfg"
    and "path_exists os fs (source_path m)"
    and "case_id m \<notin> duplicate_case_ids cfg
         \<or> (duplicates_action cfg \<noteq> ''skip'' \<and> duplicates_action cfg \<noteq> ''quarantine'')"
    and "\<not> ((path_exists os fs (path_join (dest_root cfg) (folder_name m))
              \<or> folder_name m \<in> claimed_names st) \<and> on_dest_exists cfg = ''skip'')"
  using assms by (auto simp: reaches_main_def passes_checks_def)

lemma reaches_quarantine_conditions:
  assumes "reaches_quarantine os cfg fs m"
  shows "excluded_by os cfg (folder_name m) = None"
    and "source_path m \<notin> already_moved_paths cfg"
    and "path_exists os fs (source_path m)"
    and "case_id m \<in> duplicate_case_ids cfg"
    and "duplicates_action cfg = ''quarantine''"
  using assms by (auto simp: reaches_quarantine_def passes_checks_def)

lemma main_raises:
  assumes "reaches_main os cfg fs st m"
    and "fst (resolve_destination os fs (dest_root cfg) (folder_name m) (claimed_names st))
           = Inl e"
  shows "FolderMover_move_folder os cfg fs st m = Inl e"
  by (rule mf_main_Inl [OF reaches_main_conditions [OF assms(1)] assms(2)])

lemma quarantine_raises:
  assumes "reaches_quarantine os cfg fs m"
    and "fst (resolve_destination os fs (quarantine_root cfg (case_id m)) (folder_name m)
                (quarantine_names st (case_id m))) = Inl e"
  shows "FolderMover_move_folder os cfg fs st m = Inl e"
proof -
  from assms(2) have "move_to_quarantine os cfg fs st m = Inl e"
    unfolding quarantine_root_def quarantine_names_def by (rule move_to_quarantine_Inl)
  with mf_quarantine [OF reaches_quarantine_conditions [OF assms(1)], of st]
  show ?thesis by simp
qed

lemma move_all_loop_append:
  assumes "move_all_loop os cfg pre results ops fs st = Inr (out, fs1, st1)"
    and "length out = length results + length pre"
  shows "move_all_loop os cfg (pre @ rest) results ops fs st
         = move_all_loop os cfg rest out (ops + count_ops (drop (length results) out)) fs1 st1"
  using assms
proof (induction pre arbitrary: results ops fs st)
  case Nil
  then show ?case by simp
next
  case (Cons m pre)
  show ?case
  proof (cases "limit_reached cfg ops")
    case True
    with Cons.prems show ?thesis by simp
  next
    case False
    with Cons.prems(1) obtain r fs2 st2 where
      mf: "FolderMover_move_folder os cfg fs st m = Inr (r, fs2, st2)"
      and rec: "move_all_loop os cfg pre (results @ [r])
                  (if status r \<in> OP_STATUSES then ops + 1 else ops) fs2 st2
                = Inr (out, fs1, st1)"
      by (auto split: sum.splits)
    let ?ops = "if status r \<in> OP_STATUSES then ops + 1 else ops"
    from Cons.prems(2) have len: "length out = length (results @ [r]) + length pre" by simp
    from move_all_loop_Inr [OF rec] obtain new where out: "out = (results @ [r]) @ new"
      by blast
    have "?ops + count_ops (drop (length (results @ [r])) out)
          = ops + count_ops (drop (length results) out)"
      using out by (simp add: count_ops_Cons)
    with Cons.IH [OF rec len, of ] False mf show ?thesis by simp
  qed
qed

lemma move_all_raises_later:
  assumes pre: "FolderMover_move_all os cfg fs st pre = Inr (results, fs1, st1)"
    and all: "length results = length pre"
    and lim: "\<not> limit_reached cfg (count_ops results)"
    and mf: "FolderMover_move_folder os cfg fs1 st1 m = Inl e"
  shows "FolderMover_move_all os cfg fs st (pre @ m # post) = Inl e"
proof -
  from pre have l: "move_all_loop os cfg pre [] 0 fs st = Inr (results, fs1, st1)"
    by (simp add: FolderMover_move_all_def)
  from all have "length results = length ([] :: MoveResult list) + length pre" by simp
  from move_all_loop_append [OF l this, of "m # post"] lim mf show ?thesis
    by (simp add: FolderMover_move_all_def)
qed

lemma quarantine_reserves:
  assumes "reaches_quarantine os cfg fs m"
    and "fst (resolve_destination os fs (quarantine_root cfg (case_id m)) (folder_name m)
                (quarantine_names st (case_id m))) = Inr dest"
  shows "\<exists>r fs' st'. FolderMover_move_folder os cfg fs st m = Inr (r, fs', st')
           \<and> claimed_names st' = claimed_names st
           \<and> quarantine_claimed st'
               = (quarantine_claimed st)(case_id m \<mapsto>
                    insert (path_name dest) (quarantine_names st (case_id m)))"
proof -
  from assms(2) have "fst (resolve_destination os fs
                  (path_join (path_join (dest_root cfg) DUPLICATES_FOLDER) (case_id m))
                  (folder_name m)
                  (case quarantine_claimed st (case_id m) of None \<Rightarrow> {} | Some c \<Rightarrow> c))
           = Inr dest"
    by (simp add: quarantine_root_def quarantine_names_def)
  from move_to_quarantine_Inr [OF this] obtain r where
    "move_to_quarantine os cfg fs st m =
           Inr (r, snd (move_folder os fs (source_path m) dest (dry_run cfg)),
                count_status (status r)
                  (st\<lparr> quarantine_claimed :=
                     (quarantine_claimed st)(case_id m \<mapsto> insert (path_name dest)
                        (case quarantine_claimed st (case_id m) of
                           None \<Rightarrow> {} | Some c \<Rightarrow> c)) \<rparr>))"
    by blast
  with mf_quarantine [OF reaches_quarantine_conditions [OF assms(1)], of st]
  show ?thesis by (simp add: quarantine_names_def)
qed

lemma main_reserves:
  assumes "reaches_main os cfg fs st m"
    and "fst (resolve_destination os fs (dest_root cfg) (folder_name m) (claimed_names st))
           = Inr dest"
  shows "\<exists>r fs' st'. FolderMover_move_folder os cfg fs st m = Inr (r, fs', st')
           \<and> claimed_names st' = insert (path_name dest) (claimed_names st)
           \<and> quarantine_claimed st' = quarantine_claimed st"
proof -
  from mf_main_Inr [OF reaches_main_conditions [OF assms(1)] assms(2)] obtain r where
    "FolderMover_move_folder os cfg fs st m =
           Inr (r, snd (move_folder os fs (source_path m) dest (dry_run cfg)),
                count_status (status r)
                  (st\<lparr> claimed_names := insert (path_name dest) (claimed_names st) \<rparr>))"
    by blast
  then show ?thesis by simp
qed

lemma skip_reserves_nothing:
  assumes "\<not> reaches_main os cfg fs st m" and "\<not> reaches_quarantine os cfg fs m"
  shows "\<exists>r fs' st'. FolderMover_move_folder os cfg fs st m = Inr (r, fs', st')
           \<and> claimed_names st' = claimed_names st
           \<and> quarantine_claimed st' = quarantine_claimed st"
proof (cases "excluded_by os cfg (folder_name m)")
  case (Some p)
  from mf_excluded [OF Some, of fs st] show ?thesis by simp
next
  case ex: None
  show ?thesis
  proof (cases "source_path m \<in> already_moved_paths cfg")
    case True
    from mf_resume [OF ex True, of fs st] show ?thesis by simp
  next
    case nres: False
    show ?thesis
    proof (cases "path_exists os fs (source_path m)")
      case False
      from mf_missing [OF ex nres False, of st] show ?thesis by simp
    next
      case src: True
      show ?thesis
      proof (cases "case_id m \<in> duplicate_case_ids cfg \<and> duplicates_action cfg = ''skip''")
        case True
        then have "case_id m \<in> duplicate_case_ids cfg" "duplicates_action cfg = ''skip''"
          by simp_all
        from mf_duplicate [OF ex nres src this, of st] show ?thesis by simp
      next
        case nskip: False
        with ex nres src have pc: "passes_checks os cfg fs m"
          by (simp add: passes_checks_def)
        with assms(2) have nq: "\<not> (case_id m \<in> duplicate_case_ids cfg
            \<and> duplicates_action cfg = ''quarantine'')"
          by (simp add: reaches_quarantine_def)
        with pc assms(1) have e: "path_exists os fs (path_join (dest_root cfg) (folder_name m))
            \<or> folder_name m \<in> claimed_names st" and s: "on_dest_exists cfg = ''skip''"
          by (auto simp: reaches_main_def)
        from nskip nq have d: "case_id m \<notin> duplicate_case_ids cfg
           \<or> (duplicates_action cfg \<noteq> ''skip'' \<and> duplicates_action cfg \<noteq> ''quarantine'')"
          by blast
        from mf_exists_skip [OF ex nres src d e s] show ?thesis by simp
      qed
    qed
  qed
qed
section \<open>Claims about the resolver\<close>

text \<open>
  C3, as the code has it. \<open>resolve_destination\<close> returns \<open>root/name\<close> when that path is not on
  disk and the name is not claimed. In general it returns the first of the candidates
  \<open>name\<close>, \<open>name_1\<close>, ..., \<open>name_10000\<close> that is free on both counts. A path it returns is
  never on disk, and the candidate name it was built from is never claimed. For a plain
  folder name that candidate is the basename of the path, so the basename is never claimed,
  and a later call whose disk kept its entries and whose claimed set grew by at least the
  name returned before yields a strictly larger suffix number.
\<close>

theorem resolve_destination_first_free:
  "(\<not> path_exists os fs (path_join root fname) \<and> fname \<notin> ex \<longrightarrow>
      fst (resolve_destination os fs root fname ex) = Inr (path_join root fname))
   \<and> (\<forall>k. k \<le> 10000 \<and> \<not> taken os fs root fname ex k \<and> (\<forall>j<k. taken os fs root fname ex j) \<longrightarrow>
        fst (resolve_destination os fs root fname ex)
          = Inr (path_join root (candidate_name fname k)))
   \<and> (\<forall>p. fst (resolve_destination os fs root fname ex) = Inr p \<longrightarrow>
        \<not> path_exists os fs p
        \<and> (\<exists>k\<le>10000. p = path_join root (candidate_name fname k)
              \<and> candidate_name fname k \<notin> ex
              \<and> (plain_name fname \<longrightarrow> path_name p = candidate_name fname k)
              \<and> (\<forall>j<k. taken os fs root fname ex j))
        \<and> (plain_name fname \<longrightarrow> path_name p \<notin> ex))
   \<and> (plain_name fname \<longrightarrow>
       (\<forall>k1 k2 fs' ex'.
          fst (resolve_destination os fs root fname ex)
            = Inr (path_join root (candidate_name fname k1))
          \<and> fst (resolve_destination os fs' root fname ex')
            = Inr (path_join root (candidate_name fname k2))
          \<and> insert (candidate_name fname k1) ex \<subseteq> ex'
          \<and> (\<forall>q. path_exists os fs q \<longrightarrow> path_exists os fs' q)
          \<longrightarrow> k1 < k2))"
proof (intro conjI allI impI)
  assume "\<not> path_exists os fs (path_join root fname) \<and> fname \<notin> ex"
  then show "fst (resolve_destination os fs root fname ex) = Inr (path_join root fname)"
    by (simp add: resolve_destination_def)
next
  fix k
  assume "k \<le> 10000 \<and> \<not> taken os fs root fname ex k \<and> (\<forall>j<k. taken os fs root fname ex j)"
  then show "fst (resolve_destination os fs root fname ex)
      = Inr (path_join root (candidate_name fname k))"
    by (simp add: resolve_destination_found)
next
  fix p
  assume p: "fst (resolve_destination os fs root fname ex) = Inr p"
  from resolve_destination_Inr [OF p] obtain k where k: "k \<le> 10000"
    "p = path_join root (candidate_name fname k)" "\<not> taken os fs root fname ex k"
    "\<forall>j<k. taken os fs root fname ex j" by blast
  have nm: "path_name p = candidate_name fname k" if "plain_name fname"
    using that k(2) by (simp add: path_name_join candidate_name_plain)
  from k(2,3) show "\<not> path_exists os fs p" by (simp add: taken_def)
  from k nm have "k \<le> 10000 \<and> p = path_join root (candidate_name fname k)
      \<and> candidate_name fname k \<notin> ex
      \<and> (plain_name fname \<longrightarrow> path_name p = candidate_name fname k)
      \<and> (\<forall>j<k. taken os fs root fname ex j)"
    by (simp add: taken_def)
  then show "\<exists>k\<le>10000. p = path_join root (candidate_name fname k)
      \<and> candidate_name fname k \<notin> ex
      \<and> (plain_name fname \<longrightarrow> path_name p = candidate_name fname k)
      \<and> (\<forall>j<k. taken os fs root fname ex j)"
    by (intro exI [of _ k])
  assume "plain_name fname"
  with nm k(3) show "path_name p \<notin> ex" by (simp add: taken_def)
next
  fix k1 k2 fs' ex'
  assume pl: "plain_name fname"
  assume "fst (resolve_destination os fs root fname ex)
          = Inr (path_join root (candidate_name fname k1))
        \<and> fst (resolve_destination os fs' root fname ex')
          = Inr (path_join root (candidate_name fname k2))
        \<and> insert (candidate_name fname k1) ex \<subseteq> ex'
        \<and> (\<forall>q. path_exists os fs q \<longrightarrow> path_exists os fs' q)"
  then have a: "fst (resolve_destination os fs root fname ex)
          = Inr (path_join root (candidate_name fname k1))"
    and b: "fst (resolve_destination os fs' root fname ex')
          = Inr (path_join root (candidate_name fname k2))"
    and c: "insert (candidate_name fname k1) ex \<subseteq> ex'"
    and d: "\<forall>q. path_exists os fs q \<longrightarrow> path_exists os fs' q"
    by simp_all
  show "k1 < k2" by (rule resolve_destination_increasing [OF pl a b c d])
qed

lemmas path_eval = path_join_def path_str_def path_anchor_def path_parts_def path_name_def
  path_parent_def

text \<open>
  A run of C3: \<open>MyFolder\<close> is on disk and \<open>MyFolder_1\<close> is claimed, so \<open>MyFolder_2\<close> is chosen.
\<close>

theorem resolve_destination_first_free_witness:
  "fst (resolve_destination ref_os \<lparr> dirs = {''/dest'', ''/dest/MyFolder''}, files = {} \<rparr>
          ''/dest'' ''MyFolder'' {''MyFolder_1''}) = Inr ''/dest/MyFolder_2''
   \<and> path_name ''/dest/MyFolder_2'' \<notin> {''MyFolder_1''}"
proof -
  let ?fs = "\<lparr> dirs = {''/dest'', ''/dest/MyFolder''}, files = {} \<rparr>"
  let ?T = "taken ref_os ?fs ''/dest'' ''MyFolder'' {''MyFolder_1''}"
  have t0: "?T 0"
    by (simp add: taken_def candidate_name_def path_eval ref_os_def)
  have t1: "?T 1"
    by (simp add: taken_def candidate_name_def path_eval ref_os_def str_nat.simps)
  have f2: "\<not> ?T 2"
    by (simp add: taken_def candidate_name_def path_eval ref_os_def str_nat.simps)
  have c2: "path_join ''/dest'' (candidate_name ''MyFolder'' 2) = ''/dest/MyFolder_2''"
    by (simp add: candidate_name_def path_eval str_nat.simps)
  have pl: "plain_name ''MyFolder''" by (simp add: plain_name_def)
  note inst = resolve_destination_first_free
    [of ref_os ?fs "''/dest''" "''MyFolder''" "{''MyFolder_1''}"]
  from inst have
    "(2::nat) \<le> 10000 \<and> \<not> ?T 2 \<and> (\<forall>j<2. ?T j) \<longrightarrow>
       fst (resolve_destination ref_os ?fs ''/dest'' ''MyFolder'' {''MyFolder_1''})
         = Inr (path_join ''/dest'' (candidate_name ''MyFolder'' 2))"
    by blast
  with t0 t1 f2 c2 have r: "fst (resolve_destination ref_os ?fs ''/dest'' ''MyFolder''
      {''MyFolder_1''}) = Inr ''/dest/MyFolder_2''"
    by (simp add: less_two_cases)
  from inst r pl have "path_name ''/dest/MyFolder_2'' \<notin> {''MyFolder_1''}" by blast
  with r show ?thesis by simp
qed

text \<open>
  Against C3 as stated. For the name \<open>a/b\<close> with \<open>b\<close> claimed, the path returned has the
  claimed basename \<open>b\<close>. And with \<open>y\<close> and its suffixes 1 to 10000 claimed, the candidate
  \<open>y_10001\<close> is free, yet no path is returned.
\<close>

theorem resolve_destination_claimed_basename:
  "fst (resolve_destination ref_os \<lparr> dirs = {''/dest''}, files = {} \<rparr> ''/dest'' ''a/b'' {''b''})
     = Inr ''/dest/a/b''
   \<and> path_name ''/dest/a/b'' \<in> {''b''}
   \<and> \<not> taken ref_os \<lparr> dirs = {''/dest''}, files = {} \<rparr> ''/dest'' ''y''
         (candidate_name ''y'' ` {0..10000}) 10001
   \<and> fst (resolve_destination ref_os \<lparr> dirs = {''/dest''}, files = {} \<rparr> ''/dest'' ''y''
          (candidate_name ''y'' ` {0..10000}))
     = Inl (RuntimeError (exhausted_message ''y''))"
proof (intro conjI)
  show "fst (resolve_destination ref_os \<lparr> dirs = {''/dest''}, files = {} \<rparr> ''/dest'' ''a/b''
      {''b''}) = Inr ''/dest/a/b''"
    by (simp add: resolve_destination_def path_eval ref_os_def)
  show "path_name ''/dest/a/b'' \<in> {''b''}" by (simp add: path_eval)
  have "candidate_name ''y'' 10001 \<notin> candidate_name ''y'' ` {0..10000}"
  proof
    assume "candidate_name ''y'' 10001 \<in> candidate_name ''y'' ` {0..10000}"
    then obtain k where "k \<in> {0..10000::nat}" "candidate_name ''y'' 10001 = candidate_name ''y'' k"
      by blast
    with candidate_name_inj [of "''y''" 10001 k] show False by simp
  qed
  moreover have "path_join ''/dest'' (candidate_name ''y'' 10001) = ''/dest/y_10001''"
    by (simp add: candidate_name_def path_eval str_nat.simps)
  ultimately show "\<not> taken ref_os \<lparr> dirs = {''/dest''}, files = {} \<rparr> ''/dest'' ''y''
         (candidate_name ''y'' ` {0..10000}) 10001"
    by (simp add: taken_def ref_os_def)
  have "\<forall>k\<le>10000. taken ref_os \<lparr> dirs = {''/dest''}, files = {} \<rparr> ''/dest'' ''y''
          (candidate_name ''y'' ` {0..10000}) k"
    by (simp add: all_candidates_claimed)
  then show "fst (resolve_destination ref_os \<lparr> dirs = {''/dest''}, files = {} \<rparr> ''/dest'' ''y''
          (candidate_name ''y'' ` {0..10000}))
     = Inl (RuntimeError (exhausted_message ''y''))"
    by (rule resolve_all_taken)
qed


text \<open>
  C4, as the code has it. When the name and its suffixes 1 to 10000 are all taken, and only
  then, \<open>resolve_destination\<close> raises a plain \<open>RuntimeError\<close> with the text "Could not find
  unique name ... after 10000 attempts". The engine does not catch it:
  \<open>FolderMover.move_folder\<close> ends with it on the main branch and on the quarantine branch,
  and \<open>move_all\<close> ends with the exception of the match at which \<open>move_folder\<close> raises,
  wherever in the batch that match stands.
\<close>

theorem resolve_destination_exhausted:
  "(fst (resolve_destination os fs root fname ex) = Inl (RuntimeError (exhausted_message fname))
      \<longleftrightarrow> (\<forall>k\<le>10000. taken os fs root fname ex k))
   \<and> (\<forall>cfg st m.
          reaches_main os cfg fs st m
          \<and> (\<forall>k\<le>10000. taken os fs (dest_root cfg) (folder_name m) (claimed_names st) k)
          \<longrightarrow> FolderMover_move_folder os cfg fs st m
                = Inl (RuntimeError (exhausted_message (folder_name m))))
   \<and> (\<forall>cfg st m.
          reaches_quarantine os cfg fs m
          \<and> (\<forall>k\<le>10000. taken os fs (quarantine_root cfg (case_id m)) (folder_name m)
                          (quarantine_names st (case_id m)) k)
          \<longrightarrow> FolderMover_move_folder os cfg fs st m
                = Inl (RuntimeError (exhausted_message (folder_name m))))
   \<and> (\<forall>cfg st pre m post results fs1 st1 e.
          FolderMover_move_all os cfg fs st pre = Inr (results, fs1, st1)
          \<and> length results = length pre
          \<and> \<not> limit_reached cfg (count_ops results)
          \<and> FolderMover_move_folder os cfg fs1 st1 m = Inl e
          \<longrightarrow> FolderMover_move_all os cfg fs st (pre @ m # post) = Inl e)"
proof (intro conjI allI impI)
  show "fst (resolve_destination os fs root fname ex) = Inl (RuntimeError (exhausted_message fname))
      \<longleftrightarrow> (\<forall>k\<le>10000. taken os fs root fname ex k)"
  proof
    assume "fst (resolve_destination os fs root fname ex)
        = Inl (RuntimeError (exhausted_message fname))"
    from resolve_destination_Inl [OF this] show "\<forall>k\<le>10000. taken os fs root fname ex k"
      by simp
  next
    assume "\<forall>k\<le>10000. taken os fs root fname ex k"
    then show "fst (resolve_destination os fs root fname ex)
        = Inl (RuntimeError (exhausted_message fname))"
      by (rule resolve_all_taken)
  qed
next
  fix cfg :: config and st :: engine and m :: FolderMatch
  assume a: "reaches_main os cfg fs st m
      \<and> (\<forall>k\<le>10000. taken os fs (dest_root cfg) (folder_name m) (claimed_names st) k)"
  then have t: "\<forall>k\<le>10000. taken os fs (dest_root cfg) (folder_name m) (claimed_names st) k"
    and r: "reaches_main os cfg fs st m" by simp_all
  show "FolderMover_move_folder os cfg fs st m
      = Inl (RuntimeError (exhausted_message (folder_name m)))"
    by (rule main_raises [OF r resolve_all_taken [OF t]])
next
  fix cfg :: config and st :: engine and m :: FolderMatch
  assume a: "reaches_quarantine os cfg fs m
      \<and> (\<forall>k\<le>10000. taken os fs (quarantine_root cfg (case_id m)) (folder_name m)
                      (quarantine_names st (case_id m)) k)"
  then have t: "\<forall>k\<le>10000. taken os fs (quarantine_root cfg (case_id m)) (folder_name m)
                      (quarantine_names st (case_id m)) k"
    and r: "reaches_quarantine os cfg fs m" by simp_all
  show "FolderMover_move_folder os cfg fs st m
      = Inl (RuntimeError (exhausted_message (folder_name m)))"
    by (rule quarantine_raises [OF r resolve_all_taken [OF t]])
next
  fix cfg :: config and st :: engine and pre :: "FolderMatch list" and m :: FolderMatch
    and post :: "FolderMatch list" and results :: "MoveResult list" and fs1
    and st1 :: engine and e
  assume "FolderMover_move_all os cfg fs st pre = Inr (results, fs1, st1)
          \<and> length results = length pre
          \<and> \<not> limit_reached cfg (count_ops results)
          \<and> FolderMover_move_folder os cfg fs1 st1 m = Inl e"
  then have a: "FolderMover_move_all os cfg fs st pre = Inr (results, fs1, st1)"
    and b: "length results = length pre"
    and c: "\<not> limit_reached cfg (count_ops results)"
    and d: "FolderMover_move_folder os cfg fs1 st1 m = Inl e" by simp_all
  show "FolderMover_move_all os cfg fs st (pre @ m # post) = Inl e"
    by (rule move_all_raises_later [OF a b c d])
qed


lemma first_move_run:
  "FolderMover_move_all ref_os ((default_config ''/dest'')\<lparr> duplicate_case_ids := {''X''} \<rparr>)
     \<lparr> dirs = {''/dest'', ''/src/A'', ''/src/F''}, files = {} \<rparr>
     \<lparr> claimed_names = {},
       quarantine_claimed = [''X'' \<mapsto> candidate_name ''F'' ` {0..10000}],
       stats = (\<lambda>_. 0) \<rparr>
     [\<lparr> case_id = ''1'', source_path = ''/src/A'', folder_name = ''A'' \<rparr>]
   = Inr ([\<lparr> result_case_id = ''1'', result_source_path = ''/src/A'',
             dest_path = Some ''/dest/A'', status = SUCCESS,
             message = ''Moved successfully'' \<rparr>],
          \<lparr> dirs = {''/dest'', ''/dest/A'', ''/src/F''}, files = {} \<rparr>,
          count_status SUCCESS
            \<lparr> claimed_names = {''A''},
              quarantine_claimed = [''X'' \<mapsto> candidate_name ''F'' ` {0..10000}],
              stats = (\<lambda>_. 0) \<rparr>)"
  by (simp add: FolderMover_move_all_def limit_reached_def OP_STATUSES_def
        FolderMover_move_folder_def default_config_def excluded_by_def ref_os_def
        resolve_destination_def path_eval move_folder_def ref_safe_move_def Let_def)
     auto

text \<open>
  A run of C4: a plain move, then a duplicate whose 10001 candidate names in its quarantine
  folder are all claimed; the batch ends with the exception.
\<close>

theorem resolve_destination_exhausted_witness:
  "FolderMover_move_all ref_os ((default_config ''/dest'')\<lparr> duplicate_case_ids := {''X''} \<rparr>)
     \<lparr> dirs = {''/dest'', ''/src/A'', ''/src/F''}, files = {} \<rparr>
     \<lparr> claimed_names = {},
       quarantine_claimed = [''X'' \<mapsto> candidate_name ''F'' ` {0..10000}],
       stats = (\<lambda>_. 0) \<rparr>
     ([\<lparr> case_id = ''1'', source_path = ''/src/A'', folder_name = ''A'' \<rparr>]
      @ \<lparr> case_id = ''X'', source_path = ''/src/F'', folder_name = ''F'' \<rparr> # [])
   = Inl (RuntimeError (exhausted_message ''F''))"
proof -
  let ?cfg = "(default_config ''/dest'')\<lparr> duplicate_case_ids := {''X''} \<rparr>"
  let ?fs = "\<lparr> dirs = {''/dest'', ''/src/A'', ''/src/F''}, files = {} \<rparr>"
  let ?st = "\<lparr> claimed_names = {},
       quarantine_claimed = [''X'' \<mapsto> candidate_name ''F'' ` {0..10000}],
       stats = (\<lambda>_. 0) \<rparr>"
  let ?fs1 = "\<lparr> dirs = {''/dest'', ''/dest/A'', ''/src/F''}, files = {} \<rparr>"
  let ?st1 = "count_status SUCCESS
            \<lparr> claimed_names = {''A''},
              quarantine_claimed = [''X'' \<mapsto> candidate_name ''F'' ` {0..10000}],
              stats = (\<lambda>_. 0) \<rparr>"
  let ?m = "\<lparr> case_id = ''X'', source_path = ''/src/F'', folder_name = ''F'' \<rparr>"
  let ?r = "\<lparr> result_case_id = ''1'', result_source_path = ''/src/A'',
             dest_path = Some ''/dest/A'', status = SUCCESS,
             message = ''Moved successfully'' \<rparr>"
  note inst = resolve_destination_exhausted [of ref_os ?fs1 "''/dest''" "''F''" "{}"]
  note inst0 = resolve_destination_exhausted [of ref_os ?fs "''/dest''" "''F''" "{}"]
  have q: "reaches_quarantine ref_os ?cfg ?fs1 ?m"
    by (simp add: reaches_quarantine_def passes_checks_def excluded_by_def default_config_def
          ref_os_def)
  have n: "quarantine_names ?st1 (case_id ?m) = candidate_name ''F'' ` {0..10000}"
    by (simp add: quarantine_names_def)
  have t: "\<forall>k\<le>10000. taken ref_os ?fs1 (quarantine_root ?cfg (case_id ?m)) (folder_name ?m)
                      (quarantine_names ?st1 (case_id ?m)) k"
    unfolding n by (simp add: all_candidates_claimed)
  from inst q t have mf: "FolderMover_move_folder ref_os ?cfg ?fs1 ?st1 ?m
      = Inl (RuntimeError (exhausted_message (folder_name ?m)))"
    by blast
  have lim: "\<not> limit_reached ?cfg (count_ops [?r])"
    by (simp add: limit_reached_def default_config_def)
  from inst0 have "FolderMover_move_all ref_os ?cfg ?fs ?st
        [\<lparr> case_id = ''1'', source_path = ''/src/A'', folder_name = ''A'' \<rparr>]
          = Inr ([?r], ?fs1, ?st1)
        \<and> length [?r] = length [\<lparr> case_id = ''1'', source_path = ''/src/A'',
                                   folder_name = ''A'' \<rparr>]
        \<and> \<not> limit_reached ?cfg (count_ops [?r])
        \<and> FolderMover_move_folder ref_os ?cfg ?fs1 ?st1 ?m
            = Inl (RuntimeError (exhausted_message (folder_name ?m)))
      \<longrightarrow> FolderMover_move_all ref_os ?cfg ?fs ?st
            ([\<lparr> case_id = ''1'', source_path = ''/src/A'', folder_name = ''A'' \<rparr>] @ ?m # [])
          = Inl (RuntimeError (exhausted_message (folder_name ?m)))"
    by blast
  with first_move_run mf lim show ?thesis by simp
qed

text \<open>
  Against C4 as stated: with every candidate name of \<open>x\<close> claimed, the exception raised is
  the built-in \<open>RuntimeError\<close>, not a type of its own.
\<close>

theorem resolve_destination_raises_RuntimeError:
  "fst (resolve_destination ref_os \<lparr> dirs = {''/dest''}, files = {} \<rparr> ''/dest'' ''x''
          (candidate_name ''x'' ` {0..10000}))
     = Inl (RuntimeError (exhausted_message ''x''))
   \<and> exn_class (RuntimeError (exhausted_message ''x'')) \<noteq> ''ResolutionExhaustedError''"
proof -
  have "\<forall>k\<le>10000. taken ref_os \<lparr> dirs = {''/dest''}, files = {} \<rparr> ''/dest'' ''x''
          (candidate_name ''x'' ` {0..10000}) k"
    by (simp add: all_candidates_claimed)
  from resolve_all_taken [OF this] show ?thesis by simp
qed

section \<open>The claimed sets of the engine\<close>

text \<open>
  C10. \<open>resolve_destination\<close> leaves the set \<open>existing_names\<close> as it was, whatever it returns.
  The name of the returned path is reserved by the callers: \<open>_resolve_quarantine_destination\<close>
  adds it to the claimed set of the CaseID (an empty set at first use) exactly when the
  resolver returns a path, and \<open>FolderMover.move_folder\<close> adds it to \<open>_claimed_names\<close> on the
  main branch and, through \<open>_resolve_quarantine_destination\<close>, to the set of the CaseID on
  the quarantine branch, the other set being unchanged. A match that reaches neither branch
  changes neither set, and when the resolver raises the engine ends with the exception and
  reserves nothing.
\<close>

theorem resolve_destination_leaves_existing_names:
  "snd (resolve_destination os fs root fname ex) = ex
   \<and> resolve_quarantine_destination os cfg fs st cid fname =
       (case fst (resolve_destination os fs (quarantine_root cfg cid) fname
                    (quarantine_names st cid)) of
          Inl e \<Rightarrow> Inl e
        | Inr dest \<Rightarrow>
            Inr (dest, st\<lparr> quarantine_claimed :=
                   (quarantine_claimed st)(cid \<mapsto>
                      insert (path_name dest) (quarantine_names st cid)) \<rparr>))
   \<and> (\<forall>m dest.
          reaches_main os cfg fs st m
          \<and> fst (resolve_destination os fs (dest_root cfg) (folder_name m) (claimed_names st))
              = Inr dest
          \<longrightarrow> (\<exists>r fs' st'. FolderMover_move_folder os cfg fs st m = Inr (r, fs', st')
                  \<and> claimed_names st' = insert (path_name dest) (claimed_names st)
                  \<and> quarantine_claimed st' = quarantine_claimed st))
   \<and> (\<forall>m dest.
          reaches_quarantine os cfg fs m
          \<and> fst (resolve_destination os fs (quarantine_root cfg (case_id m)) (folder_name m)
                   (quarantine_names st (case_id m))) = Inr dest
          \<longrightarrow> (\<exists>r fs' st'. FolderMover_move_folder os cfg fs st m = Inr (r, fs', st')
                  \<and> claimed_names st' = claimed_names st
                  \<and> quarantine_claimed st'
                      = (quarantine_claimed st)(case_id m \<mapsto>
                           insert (path_name dest) (quarantine_names st (case_id m)))))
   \<and> (\<forall>m. \<not> reaches_main os cfg fs st m \<and> \<not> reaches_quarantine os cfg fs m
          \<longrightarrow> (\<exists>r fs' st'. FolderMover_move_folder os cfg fs st m = Inr (r, fs', st')
                  \<and> claimed_names st' = claimed_names st
                  \<and> quarantine_claimed st' = quarantine_claimed st))
   \<and> (\<forall>m e.
          (reaches_main os cfg fs st m
           \<and> fst (resolve_destination os fs (dest_root cfg) (folder_name m) (claimed_names st))
               = Inl e)
          \<or> (reaches_quarantine os cfg fs m
              \<and> fst (resolve_destination os fs (quarantine_root cfg (case_id m)) (folder_name m)
                       (quarantine_names st (case_id m))) = Inl e)
          \<longrightarrow> FolderMover_move_folder os cfg fs st m = Inl e)"
proof (intro conjI allI impI)
  show "snd (resolve_destination os fs root fname ex) = ex"
    by (rule resolve_destination_frame_aux)
next
  show "resolve_quarantine_destination os cfg fs st cid fname =
       (case fst (resolve_destination os fs (quarantine_root cfg cid) fname
                    (quarantine_names st cid)) of
          Inl e \<Rightarrow> Inl e
        | Inr dest \<Rightarrow>
            Inr (dest, st\<lparr> quarantine_claimed :=
                   (quarantine_claimed st)(cid \<mapsto>
                      insert (path_name dest) (quarantine_names st cid)) \<rparr>))"
    unfolding quarantine_root_def quarantine_names_def
    by (rule resolve_quarantine_destination_eq)
next
  fix m :: FolderMatch and dest
  assume "reaches_main os cfg fs st m
          \<and> fst (resolve_destination os fs (dest_root cfg) (folder_name m) (claimed_names st))
              = Inr dest"
  then show "\<exists>r fs' st'. FolderMover_move_folder os cfg fs st m = Inr (r, fs', st')
                  \<and> claimed_names st' = insert (path_name dest) (claimed_names st)
                  \<and> quarantine_claimed st' = quarantine_claimed st"
    using main_reserves [of os cfg fs st m dest] by simp
next
  fix m :: FolderMatch and dest
  assume "reaches_quarantine os cfg fs m
          \<and> fst (resolve_destination os fs (quarantine_root cfg (case_id m)) (folder_name m)
                   (quarantine_names st (case_id m))) = Inr dest"
  then show "\<exists>r fs' st'. FolderMover_move_folder os cfg fs st m = Inr (r, fs', st')
                  \<and> claimed_names st' = claimed_names st
                  \<and> quarantine_claimed st'
                      = (quarantine_claimed st)(case_id m \<mapsto>
                           insert (path_name dest) (quarantine_names st (case_id m)))"
    using quarantine_reserves [of os cfg fs m st dest] by simp
next
  fix m :: FolderMatch
  assume "\<not> reaches_main os cfg fs st m \<and> \<not> reaches_quarantine os cfg fs m"
  then show "\<exists>r fs' st'. FolderMover_move_folder os cfg fs st m = Inr (r, fs', st')
                  \<and> claimed_names st' = claimed_names st
                  \<and> quarantine_claimed st' = quarantine_claimed st"
    using skip_reserves_nothing [of os cfg fs st m] by simp
next
  fix m :: FolderMatch and e
  assume "(reaches_main os cfg fs st m
           \<and> fst (resolve_destination os fs (dest_root cfg) (folder_name m) (claimed_names st))
               = Inl e)
          \<or> (reaches_quarantine os cfg fs m
              \<and> fst (resolve_destination os fs (quarantine_root cfg (case_id m)) (folder_name m)
                       (quarantine_names st (case_id m))) = Inl e)"
  then show "FolderMover_move_folder os cfg fs st m = Inl e"
    using main_raises [of os cfg fs st m e] quarantine_raises [of os cfg fs m st e] by blast
qed


text \<open>
  Runs of C10. With \<open>A\<close> already claimed, the move of another folder \<open>A\<close> leaves the engine
  with \<open>A_1\<close> claimed as well; the move of a duplicate of CaseID \<open>X\<close> leaves it with \<open>F\<close>
  claimed for \<open>X\<close>; a match whose source is missing changes neither set.
\<close>

theorem resolve_destination_leaves_existing_names_witness:
  "(\<exists>r fs' st'.
      FolderMover_move_folder ref_os ((default_config ''/dest'')\<lparr> duplicate_case_ids := {''X''} \<rparr>)
        \<lparr> dirs = {''/dest'', ''/src/A'', ''/src/F''}, files = {} \<rparr>
        \<lparr> claimed_names = {''A''}, quarantine_claimed = Map.empty, stats = (\<lambda>_. 0) \<rparr>
        \<lparr> case_id = ''1'', source_path = ''/src/A'', folder_name = ''A'' \<rparr> = Inr (r, fs', st')
      \<and> claimed_names st' = {''A_1'', ''A''} \<and> quarantine_claimed st' = Map.empty)
   \<and> (\<exists>r fs' st'.
      FolderMover_move_folder ref_os ((default_config ''/dest'')\<lparr> duplicate_case_ids := {''X''} \<rparr>)
        \<lparr> dirs = {''/dest'', ''/src/A'', ''/src/F''}, files = {} \<rparr>
        \<lparr> claimed_names = {''A''}, quarantine_claimed = Map.empty, stats = (\<lambda>_. 0) \<rparr>
        \<lparr> case_id = ''X'', source_path = ''/src/F'', folder_name = ''F'' \<rparr> = Inr (r, fs', st')
      \<and> claimed_names st' = {''A''} \<and> quarantine_claimed st' = [''X'' \<mapsto> {''F''}])
   \<and> (\<exists>r fs' st'.
      FolderMover_move_folder ref_os ((default_config ''/dest'')\<lparr> duplicate_case_ids := {''X''} \<rparr>)
        \<lparr> dirs = {''/dest'', ''/src/A'', ''/src/F''}, files = {} \<rparr>
        \<lparr> claimed_names = {''A''}, quarantine_claimed = Map.empty, stats = (\<lambda>_. 0) \<rparr>
        \<lparr> case_id = ''2'', source_path = ''/src/G'', folder_name = ''G'' \<rparr> = Inr (r, fs', st')
      \<and> claimed_names st' = {''A''} \<and> quarantine_claimed st' = Map.empty)"
proof -
  let ?cfg = "(default_config ''/dest'')\<lparr> duplicate_case_ids := {''X''} \<rparr>"
  let ?fs = "\<lparr> dirs = {''/dest'', ''/src/A'', ''/src/F''}, files = {} \<rparr>"
  let ?st = "\<lparr> claimed_names = {''A''}, quarantine_claimed = Map.empty, stats = (\<lambda>_. 0) \<rparr>"
  let ?m1 = "\<lparr> case_id = ''1'', source_path = ''/src/A'', folder_name = ''A'' \<rparr>"
  let ?mx = "\<lparr> case_id = ''X'', source_path = ''/src/F'', folder_name = ''F'' \<rparr>"
  let ?m2 = "\<lparr> case_id = ''2'', source_path = ''/src/G'', folder_name = ''G'' \<rparr>"
  note inst = resolve_destination_leaves_existing_names
    [where os = ref_os and fs = ?fs and root = "''/dest''" and fname = "''A''"
       and ex = "{''A''}" and cfg = ?cfg and st = ?st and cid = "''X''"]
  note main = inst [THEN conjunct2, THEN conjunct2, THEN conjunct1, rule_format,
    where m = ?m1 and dest = "''/dest/A_1''"]
  note quar = inst [THEN conjunct2, THEN conjunct2, THEN conjunct2, THEN conjunct1, rule_format,
    where m = ?mx and dest = "''/dest/_DUPLICATES/X/F''"]
  note skip = inst [THEN conjunct2, THEN conjunct2, THEN conjunct2, THEN conjunct2,
    THEN conjunct1, rule_format, where m = ?m2]
  have rm: "reaches_main ref_os ?cfg ?fs ?st ?m1"
    by (simp add: reaches_main_def passes_checks_def excluded_by_def default_config_def
          ref_os_def)
  have rd: "fst (resolve_destination ref_os ?fs (dest_root ?cfg) (folder_name ?m1)
                   (claimed_names ?st)) = Inr ''/dest/A_1''"
    by (simp add: resolve_destination_def resolve_suffix.simps default_config_def path_eval
          ref_os_def str_nat.simps)
  have rq: "reaches_quarantine ref_os ?cfg ?fs ?mx"
    by (simp add: reaches_quarantine_def passes_checks_def excluded_by_def default_config_def
          ref_os_def)
  have qd: "fst (resolve_destination ref_os ?fs (quarantine_root ?cfg (case_id ?mx))
                   (folder_name ?mx) (quarantine_names ?st (case_id ?mx)))
              = Inr ''/dest/_DUPLICATES/X/F''"
    by (simp add: resolve_destination_def quarantine_root_def quarantine_names_def
          DUPLICATES_FOLDER_def default_config_def path_eval ref_os_def)
  have nm: "\<not> reaches_main ref_os ?cfg ?fs ?st ?m2"
    by (simp add: reaches_main_def passes_checks_def ref_os_def)
  have nq: "\<not> reaches_quarantine ref_os ?cfg ?fs ?m2"
    by (simp add: reaches_quarantine_def passes_checks_def ref_os_def)
  have n1: "path_name ''/dest/A_1'' = ''A_1''" by (simp add: path_eval)
  have n2: "path_name ''/dest/_DUPLICATES/X/F'' = ''F''" by (simp add: path_eval)
  from main [OF conjI [OF rm rd]] n1 have a: "\<exists>r fs' st'.
      FolderMover_move_folder ref_os ?cfg ?fs ?st ?m1 = Inr (r, fs', st')
      \<and> claimed_names st' = {''A_1'', ''A''} \<and> quarantine_claimed st' = Map.empty"
    by simp
  from quar [OF conjI [OF rq qd]] n2 have b: "\<exists>r fs' st'.
      FolderMover_move_folder ref_os ?cfg ?fs ?st ?mx = Inr (r, fs', st')
      \<and> claimed_names st' = {''A''} \<and> quarantine_claimed st' = [''X'' \<mapsto> {''F''}]"
    by (simp add: quarantine_names_def)
  from skip [OF conjI [OF nm nq]] have c: "\<exists>r fs' st'.
      FolderMover_move_folder ref_os ?cfg ?fs ?st ?m2 = Inr (r, fs', st')
      \<and> claimed_names st' = {''A''} \<and> quarantine_claimed st' = Map.empty"
    by simp
  from a b c show ?thesis by (intro conjI)
qed

section \<open>Report labels\<close>

lemma skip_policy_run:
  "FolderMover_move_folder ref_os
     ((default_config ''/dest'')\<lparr> duplicates_action := ''skip'', duplicate_case_ids := {''X''} \<rparr>)
     \<lparr> dirs = {''/src/X_a'', ''/src/X_b'', ''/dest''}, files = {} \<rparr> new_engine
     \<lparr> case_id = ''X'', source_path = ''/src/X_a'', folder_name = ''X_a'' \<rparr>
   = Inr (\<lparr> result_case_id = ''X'', result_source_path = ''/src/X_a'', dest_path = None,
            status = SKIPPED_DUPLICATE,
            message = msg_duplicate_skipped \<rparr>,
          \<lparr> dirs = {''/src/X_a'', ''/src/X_b'', ''/dest''}, files = {} \<rparr>,
          count_status SKIPPED_DUPLICATE new_engine)"
  by (simp add: FolderMover_move_folder_def default_config_def excluded_by_def ref_os_def)

text \<open>
  The two conversions of the code, \<open>ReportStatus.from_move_status\<close> with its flag
  \<open>is_multiple\<close> and the branch of \<open>write_move_result\<close>, give different labels exactly for a
  skip or error status of a CaseID with several matches: \<open>from_move_status\<close> keeps the label
  of the status, \<open>write_move_result\<close> writes \<open>MULTIPLE_MATCHES\<close>. They agree on the four
  statuses of a move, plain or dry, and on the four quarantine statuses.
\<close>

lemma write_move_result_status_differs:
  "write_move_result_status r is_multiple \<noteq> from_move_status (status r) is_multiple
     \<longleftrightarrow> is_multiple
          \<and> status r \<in> {SKIPPED_MISSING, SKIPPED_EXISTS, SKIPPED_EXCLUDED, SKIPPED_RESUME,
                          SKIPPED_DUPLICATE, ERROR}"
  by (cases "status r"; cases is_multiple)
     (simp_all add: write_move_result_status_def quarantine_statuses_def)

text \<open>
  C9 at a failing input. The policy is \<open>skip\<close> and the CaseID \<open>X\<close> has two matches, so the
  engine returns \<open>SKIPPED_DUPLICATE\<close> for the first of them, and the row is written with
  \<open>is_multiple_match\<close> set. The label written is \<open>MULTIPLE_MATCHES\<close>, although the policy is
  not move-all; \<open>from_move_status\<close>, given the same status and flag, answers
  \<open>SKIPPED_DUPLICATE\<close>.
\<close>

theorem multiple_matches_label_under_skip_policy:
  "FolderMover_move_folder ref_os
     ((default_config ''/dest'')\<lparr> duplicates_action := ''skip'', duplicate_case_ids := {''X''} \<rparr>)
     \<lparr> dirs = {''/src/X_a'', ''/src/X_b'', ''/dest''}, files = {} \<rparr> new_engine
     \<lparr> case_id = ''X'', source_path = ''/src/X_a'', folder_name = ''X_a'' \<rparr>
   = Inr (\<lparr> result_case_id = ''X'', result_source_path = ''/src/X_a'', dest_path = None,
            status = SKIPPED_DUPLICATE,
            message = msg_duplicate_skipped \<rparr>,
          \<lparr> dirs = {''/src/X_a'', ''/src/X_b'', ''/dest''}, files = {} \<rparr>,
          count_status SKIPPED_DUPLICATE new_engine)
   \<and> entry_status (write_move_result ''2026-01-01 10:00:00''
         \<lparr> result_case_id = ''X'', result_source_path = ''/src/X_a'', dest_path = None,
           status = SKIPPED_DUPLICATE,
           message = msg_duplicate_skipped \<rparr> True None)
       = ''MULTIPLE_MATCHES''
   \<and> report_value (from_move_status SKIPPED_DUPLICATE True) = ''SKIPPED_DUPLICATE''"
  using skip_policy_run
  by (simp add: write_move_result_def write_move_result_status_def quarantine_statuses_def)

section \<open>Claims about the batch and the order of the checks\<close>

text \<open>
  C1. When \<open>move_all\<close> returns, the list of results is no longer than the list of matches.
  The result at each position is what \<open>FolderMover.move_folder\<close> returned for the match at
  that position, in the filesystem and engine left by the matches before it, and it
  carries the CaseID of that match; before each processed match the operations counted so
  far were below the budget. The list is shorter than the input only if the budget was
  reached, it is complete when there is no budget, and the number of operations among the
  results never exceeds the budget (no match is processed when the budget is zero or
  negative). Operations are the results with one of the eight move or quarantine statuses,
  plain or dry; the others are not counted. \<open>move_all\<close> does not return only when
  \<open>move_folder\<close> raises at a match that the loop reaches; it then ends with that exception.
\<close>

theorem move_all_outcomes:
  "(\<forall>results fs' st'.
      FolderMover_move_all os cfg fs st matches = Inr (results, fs', st') \<longrightarrow>
        length results \<le> length matches
        \<and> (\<forall>i<length results.
              \<not> limit_reached cfg (count_ops (take i results))
              \<and> (\<exists>fs_i st_i fs_n st_n.
                    FolderMover_move_all os cfg fs st (take i matches)
                      = Inr (take i results, fs_i, st_i)
                    \<and> FolderMover_move_folder os cfg fs_i st_i (matches ! i)
                        = Inr (results ! i, fs_n, st_n))
              \<and> result_case_id (results ! i) = case_id (matches ! i))
        \<and> (length results < length matches \<longrightarrow>
             (\<exists>k. max_moves cfg = Some k \<and> k \<le> int (count_ops results)))
        \<and> (max_moves cfg = None \<longrightarrow> length results = length matches)
        \<and> (\<forall>k. max_moves cfg = Some k \<longrightarrow>
              results = [] \<or> int (count_ops results) \<le> k)
        \<and> count_ops results
            = length (filter (\<lambda>r. status r \<in>
                {SUCCESS, SUCCESS_RENAMED, QUARANTINED, QUARANTINED_RENAMED,
                 DRY_RUN, DRY_RUN_RENAMED, DRY_RUN_QUARANTINE, DRY_RUN_QUARANTINE_RENAMED})
                results))
   \<and> (\<forall>e. FolderMover_move_all os cfg fs st matches = Inl e \<longrightarrow>
         (\<exists>i<length matches. \<exists>results fs_i st_i.
             FolderMover_move_all os cfg fs st (take i matches) = Inr (results, fs_i, st_i)
             \<and> length results = i
             \<and> \<not> limit_reached cfg (count_ops results)
             \<and> FolderMover_move_folder os cfg fs_i st_i (matches ! i) = Inl e))"
proof (intro conjI allI impI)
  fix results :: "MoveResult list" and fs' and st' :: engine
  assume a: "FolderMover_move_all os cfg fs st matches = Inr (results, fs', st')"
  then have l: "move_all_loop os cfg matches [] 0 fs st = Inr (results, fs', st')"
    by (simp add: FolderMover_move_all_def)
  from move_all_loop_Inr [OF l] have r:
    "length results \<le> length matches"
    "map result_case_id results = take (length results) (map case_id matches)"
    "length results < length matches \<longrightarrow> limit_reached cfg (count_ops results)"
    "\<forall>k. max_moves cfg = Some k \<longrightarrow> results = [] \<or> int (count_ops results) \<le> k"
    by auto
  from r(1) show "length results \<le> length matches" .
  show "\<exists>k. max_moves cfg = Some k \<and> k \<le> int (count_ops results)"
    if "length results < length matches"
    using that r(3) by (auto simp: limit_reached_def split: option.splits)
  show "length results = length matches" if "max_moves cfg = None"
    using that r(1,3) by (auto simp: limit_reached_def)
  show "results = [] \<or> int (count_ops results) \<le> k" if "max_moves cfg = Some k" for k
    using that r(4) by blast
  show "count_ops results
            = length (filter (\<lambda>r. status r \<in>
                {SUCCESS, SUCCESS_RENAMED, QUARANTINED, QUARANTINED_RENAMED,
                 DRY_RUN, DRY_RUN_RENAMED, DRY_RUN_QUARANTINE, DRY_RUN_QUARANTINE_RENAMED})
                results)"
    by (simp add: count_ops_def OP_STATUSES_def)
  fix i assume i: "i < length results"
  from l have "move_all_loop os cfg matches [] 0 fs st = Inr ([] @ results, fs', st')" by simp
  from move_all_loop_steps [OF this i] obtain fs_i st_i fs_n st_n where
    s: "move_all_loop os cfg (take i matches) [] 0 fs st = Inr ([] @ take i results, fs_i, st_i)"
    and b: "\<not> limit_reached cfg (0 + count_ops (take i results))"
    and c: "FolderMover_move_folder os cfg fs_i st_i (matches ! i) = Inr (results ! i, fs_n, st_n)"
    by blast
  from b show "\<not> limit_reached cfg (count_ops (take i results))" by simp
  from s c show "\<exists>fs_i st_i fs_n st_n.
      FolderMover_move_all os cfg fs st (take i matches) = Inr (take i results, fs_i, st_i)
      \<and> FolderMover_move_folder os cfg fs_i st_i (matches ! i) = Inr (results ! i, fs_n, st_n)"
    by (simp add: FolderMover_move_all_def)
  from move_folder_result_id [OF c]
  show "result_case_id (results ! i) = case_id (matches ! i)" .
next
  fix e
  assume "FolderMover_move_all os cfg fs st matches = Inl e"
  then have "move_all_loop os cfg matches [] 0 fs st = Inl e"
    by (simp add: FolderMover_move_all_def)
  from move_all_loop_raises_at [OF this]
  show "\<exists>i<length matches. \<exists>results fs_i st_i.
             FolderMover_move_all os cfg fs st (take i matches) = Inr (results, fs_i, st_i)
             \<and> length results = i
             \<and> \<not> limit_reached cfg (count_ops results)
             \<and> FolderMover_move_folder os cfg fs_i st_i (matches ! i) = Inl e"
    by (simp add: FolderMover_move_all_def)
qed


lemma budget_run:
  "FolderMover_move_all ref_os ((default_config ''/dest'')\<lparr> max_moves := Some 1 \<rparr>)
     \<lparr> dirs = {''/dest'', ''/src/A'', ''/src/B''}, files = {} \<rparr> new_engine
     [\<lparr> case_id = ''0'', source_path = ''/src/Z'', folder_name = ''Z'' \<rparr>,
      \<lparr> case_id = ''1'', source_path = ''/src/A'', folder_name = ''A'' \<rparr>,
      \<lparr> case_id = ''2'', source_path = ''/src/B'', folder_name = ''B'' \<rparr>]
   = Inr ([\<lparr> result_case_id = ''0'', result_source_path = ''/src/Z'',
             dest_path = None, status = SKIPPED_MISSING, message = msg_source_missing \<rparr>,
           \<lparr> result_case_id = ''1'', result_source_path = ''/src/A'',
             dest_path = Some ''/dest/A'', status = SUCCESS,
             message = ''Moved successfully'' \<rparr>],
          \<lparr> dirs = {''/dest'', ''/dest/A'', ''/src/B''}, files = {} \<rparr>,
          count_status SUCCESS
            ((count_status SKIPPED_MISSING new_engine)\<lparr> claimed_names := {''A''} \<rparr>))"
  by (simp add: FolderMover_move_all_def limit_reached_def OP_STATUSES_def
        FolderMover_move_folder_def default_config_def excluded_by_def ref_os_def
        new_engine_def resolve_destination_def path_eval move_folder_def ref_safe_move_def
        Let_def count_status_def)
     auto

text \<open>
  A run of C1 with a budget of one operation and three matches: the first is skipped, its
  source being absent, and uses no budget; the second is moved; the third is not processed.
\<close>

theorem move_all_outcomes_witness:
  "FolderMover_move_all ref_os ((default_config ''/dest'')\<lparr> max_moves := Some 1 \<rparr>)
     \<lparr> dirs = {''/dest'', ''/src/A'', ''/src/B''}, files = {} \<rparr> new_engine
     [\<lparr> case_id = ''0'', source_path = ''/src/Z'', folder_name = ''Z'' \<rparr>,
      \<lparr> case_id = ''1'', source_path = ''/src/A'', folder_name = ''A'' \<rparr>,
      \<lparr> case_id = ''2'', source_path = ''/src/B'', folder_name = ''B'' \<rparr>]
   = Inr ([\<lparr> result_case_id = ''0'', result_source_path = ''/src/Z'',
             dest_path = None, status = SKIPPED_MISSING, message = msg_source_missing \<rparr>,
           \<lparr> result_case_id = ''1'', result_source_path = ''/src/A'',
             dest_path = Some ''/dest/A'', status = SUCCESS,
             message = ''Moved successfully'' \<rparr>],
          \<lparr> dirs = {''/dest'', ''/dest/A'', ''/src/B''}, files = {} \<rparr>,
          count_status SUCCESS
            ((count_status SKIPPED_MISSING new_engine)\<lparr> claimed_names := {''A''} \<rparr>))
   \<and> (\<exists>k. max_moves ((default_config ''/dest'')\<lparr> max_moves := Some 1 \<rparr>) = Some k
          \<and> k \<le> int (count_ops
               [\<lparr> result_case_id = ''0'', result_source_path = ''/src/Z'',
                  dest_path = None, status = SKIPPED_MISSING, message = msg_source_missing \<rparr>,
                \<lparr> result_case_id = ''1'', result_source_path = ''/src/A'',
                  dest_path = Some ''/dest/A'', status = SUCCESS,
                  message = ''Moved successfully'' \<rparr>]))
   \<and> \<not> limit_reached ((default_config ''/dest'')\<lparr> max_moves := Some 1 \<rparr>)
         (count_ops
            [\<lparr> result_case_id = ''0'', result_source_path = ''/src/Z'',
               dest_path = None, status = SKIPPED_MISSING, message = msg_source_missing \<rparr>])"
proof -
  let ?cfg = "(default_config ''/dest'')\<lparr> max_moves := Some 1 \<rparr>"
  let ?fs = "\<lparr> dirs = {''/dest'', ''/src/A'', ''/src/B''}, files = {} \<rparr>"
  let ?ms = "[\<lparr> case_id = ''0'', source_path = ''/src/Z'', folder_name = ''Z'' \<rparr>,
      \<lparr> case_id = ''1'', source_path = ''/src/A'', folder_name = ''A'' \<rparr>,
      \<lparr> case_id = ''2'', source_path = ''/src/B'', folder_name = ''B'' \<rparr>]"
  let ?r0 = "\<lparr> result_case_id = ''0'', result_source_path = ''/src/Z'',
             dest_path = None, status = SKIPPED_MISSING, message = msg_source_missing \<rparr>"
  let ?r1 = "\<lparr> result_case_id = ''1'', result_source_path = ''/src/A'',
             dest_path = Some ''/dest/A'', status = SUCCESS,
             message = ''Moved successfully'' \<rparr>"
  note inst = move_all_outcomes [where os = ref_os and cfg = ?cfg and fs = ?fs
      and st = new_engine and matches = ?ms]
  note props = inst [THEN conjunct1, rule_format, OF budget_run]
  have short: "length [?r0, ?r1] < length ?ms" by simp
  have one: "(1::nat) < length [?r0, ?r1]" by simp
  from props [THEN conjunct2, THEN conjunct2, THEN conjunct1, rule_format, OF short]
  have a: "\<exists>k. max_moves ?cfg = Some k \<and> k \<le> int (count_ops [?r0, ?r1])" .
  from props [THEN conjunct2, THEN conjunct1, rule_format, OF one]
  have "\<not> limit_reached ?cfg (count_ops (take 1 [?r0, ?r1]))" by (rule conjunct1)
  then have b: "\<not> limit_reached ?cfg (count_ops [?r0])" by simp
  from budget_run a b show ?thesis by (intro conjI)
qed

lemma matches_exclusion_pattern_None:
  "matches_exclusion_pattern fnm fname pats = None \<longleftrightarrow>
     \<not> (\<exists>p\<in>set pats. fnm (lower fname) (lower p) \<or> sublist (lower p) (lower fname))"
  by (induction pats) auto

lemma matches_exclusion_pattern_Some:
  "matches_exclusion_pattern fnm fname pats = Some p \<Longrightarrow> p \<in> set pats"
  by (induction pats) (auto split: if_splits)

text \<open>
  When no pattern is empty, the engine's test (\<open>if matched_pattern:\<close>) succeeds exactly when
  some pattern matches the folder name, as a glob or as a substring.
\<close>

lemma excluded_by_iff:
  assumes "[] \<notin> set (exclude_patterns cfg)"
  shows "excluded_by os cfg fname \<noteq> None \<longleftrightarrow>
           (\<exists>p\<in>set (exclude_patterns cfg).
               fnmatch os (lower fname) (lower p) \<or> sublist (lower p) (lower fname))"
proof (cases "matches_exclusion_pattern (fnmatch os) fname (exclude_patterns cfg)")
  case None
  then show ?thesis
    using matches_exclusion_pattern_None [of "fnmatch os" fname "exclude_patterns cfg"]
    by (simp add: excluded_by_def)
next
  case (Some p)
  from matches_exclusion_pattern_Some [OF Some] assms have "p \<noteq> []" by auto
  moreover from Some have "exclude_patterns cfg \<noteq> []" by auto
  moreover from Some have
    "\<exists>p\<in>set (exclude_patterns cfg).
        fnmatch os (lower fname) (lower p) \<or> sublist (lower p) (lower fname)"
    using matches_exclusion_pattern_None [of "fnmatch os" fname "exclude_patterns cfg"]
    by simp
  ultimately show ?thesis using Some by (simp add: excluded_by_def)
qed

text \<open>
  An empty pattern at the head of the list is returned by \<open>matches_exclusion_pattern\<close> for
  every folder name, being a substring of it, and the engine's test takes it for no match:
  nothing is excluded, whatever the patterns after it.
\<close>

lemma empty_pattern_first:
  assumes "exclude_patterns cfg = [] # pats"
  shows "matches_exclusion_pattern (fnmatch os) fname (exclude_patterns cfg) = Some []"
    and "excluded_by os cfg fname = None"
  using assms by (simp_all add: excluded_by_def lower_def)

text \<open>
  The order of the checks of \<open>FolderMover.move_folder\<close>, on the engine's own tests: the
  exclusion test first, then the resume set, then the source, then the duplicates policy.
\<close>

lemma move_folder_checks:
  "(\<forall>p. excluded_by os cfg (folder_name m) = Some p \<longrightarrow>
        FolderMover_move_folder os cfg fs st m =
          Inr (\<lparr> result_case_id = case_id m, result_source_path = source_path m,
                 dest_path = None, status = SKIPPED_EXCLUDED, message = msg_excluded p \<rparr>,
               fs, count_status SKIPPED_EXCLUDED st))
   \<and> (excluded_by os cfg (folder_name m) = None
        \<and> source_path m \<in> already_moved_paths cfg \<longrightarrow>
        FolderMover_move_folder os cfg fs st m =
          Inr (\<lparr> result_case_id = case_id m, result_source_path = source_path m,
                 dest_path = None, status = SKIPPED_RESUME, message = msg_resumed \<rparr>,
               fs, count_status SKIPPED_RESUME st))
   \<and> (excluded_by os cfg (folder_name m) = None
        \<and> source_path m \<notin> already_moved_paths cfg
        \<and> \<not> path_exists os fs (source_path m) \<longrightarrow>
        FolderMover_move_folder os cfg fs st m =
          Inr (\<lparr> result_case_id = case_id m, result_source_path = source_path m,
                 dest_path = None, status = SKIPPED_MISSING, message = msg_source_missing \<rparr>,
               fs, count_status SKIPPED_MISSING st))
   \<and> (excluded_by os cfg (folder_name m) = None
        \<and> source_path m \<notin> already_moved_paths cfg
        \<and> path_exists os fs (source_path m)
        \<and> case_id m \<in> duplicate_case_ids cfg \<and> duplicates_action cfg = ''skip'' \<longrightarrow>
        FolderMover_move_folder os cfg fs st m =
          Inr (\<lparr> result_case_id = case_id m, result_source_path = source_path m,
                 dest_path = None, status = SKIPPED_DUPLICATE,
                 message = msg_duplicate_skipped \<rparr>,
               fs, count_status SKIPPED_DUPLICATE st))"
  by (intro conjI allI impI) (simp_all add: mf_excluded mf_resume mf_missing mf_duplicate)

text \<open>
  C2 at a failing input. The patterns are the empty pattern and \<open>temp\<close>, the folder is
  \<open>temp_folder\<close>, and its source path is in the resume set. The folder name matches the
  pattern \<open>temp\<close>, and \<open>matches_exclusion_pattern\<close> does return a pattern, the empty one; the
  engine takes the empty string for no match and goes on to the resume check: the status is
  \<open>SKIPPED_RESUME\<close>. With the same two patterns in the other order the status is
  \<open>SKIPPED_EXCLUDED\<close>.
\<close>

theorem empty_pattern_hides_exclusion:
  "sublist (lower ''temp'') (lower ''temp_folder'')
   \<and> matches_exclusion_pattern (fnmatch ref_os) ''temp_folder'' ['''', ''temp''] = Some ''''
   \<and> FolderMover_move_folder ref_os
       ((default_config ''/base/dest'')\<lparr> exclude_patterns := ['''', ''temp''],
           already_moved_paths := {''/base/temp_folder''} \<rparr>)
       \<lparr> dirs = {''/base/temp_folder'', ''/base/dest''}, files = {} \<rparr> new_engine
       \<lparr> case_id = ''001'', source_path = ''/base/temp_folder'', folder_name = ''temp_folder'' \<rparr>
     = Inr (\<lparr> result_case_id = ''001'', result_source_path = ''/base/temp_folder'',
              dest_path = None, status = SKIPPED_RESUME, message = msg_resumed \<rparr>,
            \<lparr> dirs = {''/base/temp_folder'', ''/base/dest''}, files = {} \<rparr>,
            count_status SKIPPED_RESUME new_engine)
   \<and> FolderMover_move_folder ref_os
       ((default_config ''/base/dest'')\<lparr> exclude_patterns := [''temp'', ''''],
           already_moved_paths := {''/base/temp_folder''} \<rparr>)
       \<lparr> dirs = {''/base/temp_folder'', ''/base/dest''}, files = {} \<rparr> new_engine
       \<lparr> case_id = ''001'', source_path = ''/base/temp_folder'', folder_name = ''temp_folder'' \<rparr>
     = Inr (\<lparr> result_case_id = ''001'', result_source_path = ''/base/temp_folder'',
              dest_path = None, status = SKIPPED_EXCLUDED, message = msg_excluded ''temp'' \<rparr>,
            \<lparr> dirs = {''/base/temp_folder'', ''/base/dest''}, files = {} \<rparr>,
            count_status SKIPPED_EXCLUDED new_engine)"
proof -
  let ?c1 = "(default_config ''/base/dest'')\<lparr> exclude_patterns := ['''', ''temp''],
           already_moved_paths := {''/base/temp_folder''} \<rparr>"
  let ?c2 = "(default_config ''/base/dest'')\<lparr> exclude_patterns := [''temp'', ''''],
           already_moved_paths := {''/base/temp_folder''} \<rparr>"
  let ?m = "\<lparr> case_id = ''001'', source_path = ''/base/temp_folder'',
             folder_name = ''temp_folder'' \<rparr>"
  let ?fs = "\<lparr> dirs = {''/base/temp_folder'', ''/base/dest''}, files = {} \<rparr>"
  have s: "sublist (lower ''temp'') (lower ''temp_folder'')"
    by (simp add: lower_def lower_char_def sublist_Cons_right)
  have p: "exclude_patterns ?c1 = [] # [''temp'']" by (simp add: default_config_def)
  have m1: "matches_exclusion_pattern (fnmatch ref_os) ''temp_folder'' ['''', ''temp'']
      = Some ''''"
    using empty_pattern_first(1) [OF p, of ref_os "''temp_folder''"]
    by (simp add: default_config_def)
  have e1: "excluded_by ref_os ?c1 (folder_name ?m) = None"
    by (rule empty_pattern_first(2) [OF p])
  have r1: "source_path ?m \<in> already_moved_paths ?c1" by (simp add: default_config_def)
  have "matches_exclusion_pattern (fnmatch ref_os) ''temp_folder'' [''temp'', ''''] = Some ''temp''"
    using s by simp
  then have e2: "excluded_by ref_os ?c2 (folder_name ?m) = Some ''temp''"
    by (simp add: excluded_by_def default_config_def)
  from s m1 mf_resume [OF e1 r1, of ?fs new_engine] mf_excluded [OF e2, of ?fs new_engine]
  show ?thesis by simp
qed
end
